theory Spec2Isabelle
  imports Complex_Main "HOL-Library.Word"
begin

unbundle bit_operations_syntax

section \<open>Machine types and byte helpers\<close>

type_synonym u8 = "8 word"
type_synonym u16 = "16 word"
type_synonym u32 = "32 word"

text \<open>
  \<^verbatim>\<open>be16(p)\<close> reads two consecutive bytes as a big-endian word, \<^verbatim>\<open>put_be16(p, v)\<close>
  stores a word as two bytes, high byte first.
\<close>

definition be16 :: "u8 \<Rightarrow> u8 \<Rightarrow> u16" where
  "be16 p0 p1 = (push_bit 8 (ucast p0)) OR ucast p1"

definition put_be16 :: "u16 \<Rightarrow> u8 list" where
  "put_be16 v = [ucast (drop_bit 8 v), ucast (v AND 0xFF)]"

section \<open>Single-precision floating point\<close>

text \<open>
  The code computes in \<^verbatim>\<open>float\<close>, the binary32 format of IEEE 754 on the target. A value is
  a finite number that the format can represent, an infinity or a NaN. Every operation rounds
  its exact result to the nearest representable number, ties to the even significand, and
  each operation of an expression is rounded on its own. The sign of a zero is not kept:
  every divisor in the code is a positive constant or a number tested to be positive, and a
  zero of either sign compares and converts alike, so no register depends on it.
\<close>

datatype f32 = Fin real | PInf | NInf | NaN

definition rnd_even :: "real \<Rightarrow> int" where
  "rnd_even r =
     (let f = \<lfloor>r\<rfloor>; d = r - of_int f
      in if d < 1 / 2 then f
         else if d > 1 / 2 then f + 1
         else if even f then f else f + 1)"

text \<open>
  The exponent of the binade of a magnitude \<open>a\<close>: the least \<open>e\<close> from \<open>-126\<close> (the exponent
  of the subnormal numbers) to 127 with \<open>a < 2 ^ (e + 1)\<close>, and 127 when there is none.
\<close>

fun find_exp :: "nat \<Rightarrow> int \<Rightarrow> real \<Rightarrow> int" where
  "find_exp 0 e a = e"
| "find_exp (Suc n) e a = (if a < 2 powi (e + 1) then e else find_exp n (e + 1) a)"

definition f32_exponent :: "real \<Rightarrow> int" where
  "f32_exponent a = find_exp 253 (- 126) a"

text \<open>
  Rounding to binary32: the significand has 24 bits, so the numbers of the binade of exponent
  \<open>e\<close> are the multiples of \<open>2 ^ (e - 23)\<close>; a result of magnitude \<open>2 ^ 128\<close> or more is an
  infinity.
\<close>

definition round32 :: "real \<Rightarrow> f32" where
  "round32 x =
     (let e = f32_exponent \<bar>x\<bar>;
          q = 2 powi (e - 23);
          y = of_int (rnd_even (x / q)) * q
      in if \<bar>y\<bar> \<ge> 2 powi 128 then (if x > 0 then PInf else NInf) else Fin y)"

text \<open>Conversion of an integer to \<^verbatim>\<open>float\<close>.\<close>

definition f_of_int :: "int \<Rightarrow> f32" where
  "f_of_int n = round32 (of_int n)"

fun f_add :: "f32 \<Rightarrow> f32 \<Rightarrow> f32" where
  "f_add (Fin x) (Fin y) = round32 (x + y)"
| "f_add NaN b = NaN"
| "f_add a NaN = NaN"
| "f_add PInf NInf = NaN"
| "f_add NInf PInf = NaN"
| "f_add PInf b = PInf"
| "f_add NInf b = NInf"
| "f_add a PInf = PInf"
| "f_add a NInf = NInf"

fun f_mul :: "f32 \<Rightarrow> f32 \<Rightarrow> f32" where
  "f_mul (Fin x) (Fin y) = round32 (x * y)"
| "f_mul NaN b = NaN"
| "f_mul a NaN = NaN"
| "f_mul (Fin x) b = (if x = 0 then NaN else if (x > 0) = (b = PInf) then PInf else NInf)"
| "f_mul a (Fin y) = (if y = 0 then NaN else if (y > 0) = (a = PInf) then PInf else NInf)"
| "f_mul a b = (if a = b then PInf else NInf)"

fun f_div :: "f32 \<Rightarrow> f32 \<Rightarrow> f32" where
  "f_div (Fin x) (Fin y) =
     (if y = 0 then (if x = 0 then NaN else if x > 0 then PInf else NInf)
      else round32 (x / y))"
| "f_div NaN b = NaN"
| "f_div a NaN = NaN"
| "f_div (Fin x) b = Fin 0"
| "f_div a (Fin y) = (if (y \<ge> 0) = (a = PInf) then PInf else NInf)"
| "f_div a b = NaN"

fun f_sqrt :: "f32 \<Rightarrow> f32" where
  "f_sqrt (Fin x) = (if x < 0 then NaN else round32 (sqrt x))"
| "f_sqrt PInf = PInf"
| "f_sqrt a = NaN"

text \<open>The comparison \<^verbatim>\<open>a > b\<close>, false when an operand is a NaN.\<close>

fun f_gt :: "f32 \<Rightarrow> f32 \<Rightarrow> bool" where
  "f_gt (Fin x) (Fin y) = (x > y)"
| "f_gt NaN b = False"
| "f_gt a NaN = False"
| "f_gt PInf b = (b \<noteq> PInf)"
| "f_gt NInf b = False"
| "f_gt a PInf = False"
| "f_gt a NInf = True"

text \<open>
  \<^verbatim>\<open>powf(10.0f, (float)sf)\<close> is a function of the C library. It is taken to return the
  correctly rounded power; for the exponent 0 the C standard requires the exact result 1,
  and the zero blocks of the running component use no other exponent.
\<close>

definition powf10 :: "int \<Rightarrow> f32" where
  "powf10 n = round32 (10 powi n)"

text \<open>
  Conversion of a \<^verbatim>\<open>float\<close> to an integer type discards the fraction. When the result does
  not fit the target type, or the operand is an infinity or a NaN, the conversion is undefined
  in C; \<open>ub\<close> stands for the integer that the conversion instruction of the target leaves
  then. \<open>f2u16\<close> is \<^verbatim>\<open>(uint16_t)x\<close>, \<open>f2u32\<close> is \<^verbatim>\<open>(uint32_t)x\<close> and \<open>f2s16\<close> is the chain
  \<^verbatim>\<open>(uint16_t)(int16_t)(int)x\<close> of the signed registers, whose narrowing steps keep the low 16
  bits.
\<close>

definition trunc :: "real \<Rightarrow> int" where
  "trunc x = (if 0 \<le> x then \<lfloor>x\<rfloor> else \<lceil>x\<rceil>)"

definition f2int :: "(f32 \<Rightarrow> int) \<Rightarrow> int \<Rightarrow> int \<Rightarrow> f32 \<Rightarrow> int" where
  "f2int ub lo hi x =
     (case x of
        Fin v \<Rightarrow> if lo \<le> trunc v \<and> trunc v \<le> hi then trunc v else ub x
      | PInf \<Rightarrow> ub x
      | NInf \<Rightarrow> ub x
      | NaN \<Rightarrow> ub x)"

definition f2u16 :: "(f32 \<Rightarrow> int) \<Rightarrow> f32 \<Rightarrow> u16" where
  "f2u16 ub x = word_of_int (f2int ub 0 65535 x)"

definition f2u32 :: "(f32 \<Rightarrow> int) \<Rightarrow> f32 \<Rightarrow> u32" where
  "f2u32 ub x = word_of_int (f2int ub 0 4294967295 x)"

definition f2s16 :: "(f32 \<Rightarrow> int) \<Rightarrow> f32 \<Rightarrow> u16" where
  "f2s16 ub x = word_of_int (f2int ub (- 2147483648) 2147483647 x)"

section \<open>CRC-16/Modbus (\<^verbatim>\<open>calc_crc16_\<close>)\<close>

fun crc_bits :: "nat \<Rightarrow> u16 \<Rightarrow> u16" where
  "crc_bits 0 crc = crc"
| "crc_bits (Suc j) crc =
     crc_bits j (if crc AND 0x0001 \<noteq> 0 then (drop_bit 1 crc) XOR 0xA001 else drop_bit 1 crc)"

fun crc_loop :: "u8 list \<Rightarrow> u16 \<Rightarrow> u16" where
  "crc_loop [] crc = crc"
| "crc_loop (b # bs) crc = crc_loop bs (crc_bits 8 (crc XOR ucast b))"

definition calc_crc16 :: "u8 list \<Rightarrow> u16" where
  "calc_crc16 data = crc_loop data 0xFFFF"

section \<open>Constants of the register layout\<close>

definition SUNSPEC_BASE :: u16 where "SUNSPEC_BASE = 40000"

definition HM_DATA_BASE :: u16 where "HM_DATA_BASE = 0x1000"
definition HM_PORT_STRIDE :: u16 where "HM_PORT_STRIDE = 0x28"
definition HM_PORT_REGS :: u16 where "HM_PORT_REGS = 0x28"

definition HM_PV_VOLTAGE :: nat where "HM_PV_VOLTAGE = 0x08"
definition HM_PV_CURRENT :: nat where "HM_PV_CURRENT = 0x09"
definition HM_GRID_VOLTAGE :: nat where "HM_GRID_VOLTAGE = 0x0A"
definition HM_GRID_FREQ :: nat where "HM_GRID_FREQ = 0x0B"
definition HM_PV_POWER :: nat where "HM_PV_POWER = 0x0C"
definition HM_TODAY_PROD_H :: nat where "HM_TODAY_PROD_H = 0x0D"
definition HM_TODAY_PROD_L :: nat where "HM_TODAY_PROD_L = 0x0E"
definition HM_TOTAL_PROD_H :: nat where "HM_TOTAL_PROD_H = 0x0F"
definition HM_TOTAL_PROD_L :: nat where "HM_TOTAL_PROD_L = 0x10"
definition HM_TEMPERATURE :: nat where "HM_TEMPERATURE = 0x11"
definition HM_OPERATING_STATUS :: nat where "HM_OPERATING_STATUS = 0x1E"
definition HM_ALARM_CODE :: nat where "HM_ALARM_CODE = 0x1F"
definition HM_LINK_STATUS :: nat where "HM_LINK_STATUS = 0x20"

definition MODEL_1_SIZE :: nat where "MODEL_1_SIZE = 66"
definition MODEL_103_SIZE :: nat where "MODEL_103_SIZE = 50"
definition MODEL_120_SIZE :: nat where "MODEL_120_SIZE = 26"
definition MODEL_123_SIZE :: nat where "MODEL_123_SIZE = 24"

definition INV_A :: nat where "INV_A = 0"
definition INV_AphA :: nat where "INV_AphA = 1"
definition INV_AphB :: nat where "INV_AphB = 2"
definition INV_AphC :: nat where "INV_AphC = 3"
definition INV_A_SF :: nat where "INV_A_SF = 4"
definition INV_PPVphAB :: nat where "INV_PPVphAB = 5"
definition INV_PPVphBC :: nat where "INV_PPVphBC = 6"
definition INV_PPVphCA :: nat where "INV_PPVphCA = 7"
definition INV_PhVphA :: nat where "INV_PhVphA = 8"
definition INV_PhVphB :: nat where "INV_PhVphB = 9"
definition INV_PhVphC :: nat where "INV_PhVphC = 10"
definition INV_V_SF :: nat where "INV_V_SF = 11"
definition INV_W :: nat where "INV_W = 12"
definition INV_W_SF :: nat where "INV_W_SF = 13"
definition INV_Hz :: nat where "INV_Hz = 14"
definition INV_Hz_SF :: nat where "INV_Hz_SF = 15"
definition INV_VA :: nat where "INV_VA = 16"
definition INV_VA_SF :: nat where "INV_VA_SF = 17"
definition INV_VAr :: nat where "INV_VAr = 18"
definition INV_VAr_SF :: nat where "INV_VAr_SF = 19"
definition INV_PF :: nat where "INV_PF = 20"
definition INV_PF_SF :: nat where "INV_PF_SF = 21"
definition INV_WH :: nat where "INV_WH = 22"
definition INV_WH_SF :: nat where "INV_WH_SF = 24"
definition INV_DCA_SF :: nat where "INV_DCA_SF = 26"
definition INV_DCV_SF :: nat where "INV_DCV_SF = 28"
definition INV_DCW :: nat where "INV_DCW = 29"
definition INV_DCW_SF :: nat where "INV_DCW_SF = 30"
definition INV_TmpCab :: nat where "INV_TmpCab = 31"
definition INV_Tmp_SF :: nat where "INV_Tmp_SF = 35"
definition INV_St :: nat where "INV_St = 36"
definition INV_Evt1 :: nat where "INV_Evt1 = 38"
definition INV_Evt2 :: nat where "INV_Evt2 = 40"
definition INV_EvtVnd1 :: nat where "INV_EvtVnd1 = 42"
definition INV_EvtVnd2 :: nat where "INV_EvtVnd2 = 44"
definition INV_EvtVnd3 :: nat where "INV_EvtVnd3 = 46"
definition INV_EvtVnd4 :: nat where "INV_EvtVnd4 = 48"

definition OFF_SUNS :: nat where "OFF_SUNS = 0"
definition OFF_MODEL1 :: nat where "OFF_MODEL1 = 2"
definition OFF_INV :: nat where "OFF_INV = 70"
definition OFF_M120 :: nat where "OFF_M120 = 122"
definition OFF_M123 :: nat where "OFF_M123 = 150"
definition OFF_END :: nat where "OFF_END = 176"
definition TOTAL_REGS :: nat where "TOTAL_REGS = 178"

section \<open>Data model\<close>

text \<open>
  C strings (\<^verbatim>\<open>char[N]\<close>, NUL-terminated) are byte lists holding the characters before the
  terminator.
\<close>

record RtuSource =
  port_number :: u8
  phases :: u8
  connected_phase :: u8
  rated_power_w :: u16
  mppt_inputs :: u8
  name :: "u8 list"
  model :: "u8 list"
  serial_number :: "u8 list"
  serial_from_dtu :: "u8 list"
  raw_regs :: "u16 list"
  data_valid :: bool
  last_poll_ms :: u32
  initial_model1_read :: bool
  poll_success_count :: u32
  poll_fail_count :: u32
  poll_timeout_count :: u32
  crc_error_count :: u32
  power_w :: f32
  current_a :: f32
  voltage_v :: f32
  frequency_hz :: f32
  energy_kwh :: f32
  today_energy_wh :: f32
  temperature_c :: f32
  pv_voltage_v :: f32
  pv_current_a :: f32
  pv_power_w :: f32
  alarm_code :: u16
  alarm_count :: u16
  link_status :: u8
  operating_status :: u16
  producing :: bool

record AggregatedConfig =
  unit_id :: u8
  agg_phases :: u8
  agg_rated_power_w :: u16
  rated_voltage_v :: u16
  rated_current_a :: f32
  manufacturer :: "u8 list"
  model_name :: "u8 list"
  agg_serial_number :: "u8 list"

text \<open>
  The component's members. \<^verbatim>\<open>sources_\<close> with \<^verbatim>\<open>num_sources_\<close> is the list \<open>sources\<close>.
  Three fields stand for the outside world: \<open>uart_rx\<close> are the bytes waiting in the UART
  receive buffer, \<open>uart_tx\<close> the frames handed to \<^verbatim>\<open>write_array\<close> so far (one entry per
  call, oldest first), \<open>tcp_tx\<close> the frames handed to \<^verbatim>\<open>send\<close> so far with their socket.
\<close>

record proxy =
  poll_interval_ms :: u32
  rtu_timeout_ms :: u32
  dtu_address :: u8
  agg_config :: AggregatedConfig
  sources :: "RtuSource list"
  tcp_request_count :: u32
  tcp_error_count :: u32
  last_tcp_activity_ms :: u32
  current_poll_source :: nat
  last_poll_time :: u32
  rtu_busy :: bool
  rtu_request_time :: u32
  register_map :: "u16 list"
  agg_power_w :: f32
  agg_current_a :: f32
  agg_voltage_v :: f32
  agg_frequency_hz :: f32
  agg_energy_kwh :: f32
  uart_rx :: "u8 list"
  uart_tx :: "u8 list list"
  tcp_tx :: "(int \<times> u8 list) list"

section \<open>Power-limit forwarding (\<^verbatim>\<open>forward_power_limit_\<close>)\<close>

text \<open>
  One iteration of the loop over the sources: the frames written for one source. The
  \<^verbatim>\<open>delay(100)\<close> after each frame only lets time pass and is not represented.
\<close>

definition limit_frames :: "u8 \<Rightarrow> u16 \<Rightarrow> bool \<Rightarrow> RtuSource \<Rightarrow> u8 list list" where
  "limit_frames dtu pct_raw enabled s =
     (let port = port_number s;
          onoff_reg = (0xC006 + ucast port * 6 :: u16);
          limit_reg = (0xC007 + ucast port * 6 :: u16)
      in if enabled then
           (let hm_pct0 = uint pct_raw div 10;
                hm_pct1 = (if hm_pct0 < 2 then 2 else hm_pct0);
                hm_pct = (if hm_pct1 > 100 then 100 else hm_pct1);
                f1 = [dtu, 0x06] @ put_be16 limit_reg @ put_be16 (word_of_int hm_pct);
                crc = calc_crc16 f1;
                f2 = [dtu, 0x05] @ put_be16 onoff_reg @ put_be16 0xFF00;
                crc2 = calc_crc16 f2
            in [f1 @ [ucast (crc AND 0xFF), ucast (drop_bit 8 crc)],
                f2 @ [ucast (crc2 AND 0xFF), ucast (drop_bit 8 crc2)]])
         else
           (let f = [dtu, 0x06] @ put_be16 limit_reg @ put_be16 100;
                crc = calc_crc16 f
            in [f @ [ucast (crc AND 0xFF), ucast (drop_bit 8 crc)]]))"

fun forward_loop :: "u8 \<Rightarrow> u16 \<Rightarrow> bool \<Rightarrow> RtuSource list \<Rightarrow> u8 list list" where
  "forward_loop dtu pct_raw enabled [] = []"
| "forward_loop dtu pct_raw enabled (s # ss) =
     limit_frames dtu pct_raw enabled s @ forward_loop dtu pct_raw enabled ss"

definition forward_power_limit :: "proxy \<Rightarrow> u16 \<Rightarrow> bool \<Rightarrow> proxy" where
  "forward_power_limit st pct_raw enabled =
     st\<lparr>uart_tx := uart_tx st @ forward_loop (dtu_address st) pct_raw enabled (sources st)\<rparr>"

section \<open>Serving the register image over Modbus/TCP\<close>

text \<open>
  \<^verbatim>\<open>send_tcp_response_\<close> builds the MBAP header in front of the data and hands the frame
  to \<^verbatim>\<open>send\<close>; \<^verbatim>\<open>send_tcp_error_\<close> sends the exception code under the function code
  with bit 7 set.
\<close>

definition send_tcp_response :: "proxy \<Rightarrow> int \<Rightarrow> u16 \<Rightarrow> u8 \<Rightarrow> u8 \<Rightarrow> u8 list \<Rightarrow> proxy" where
  "send_tcp_response st client_fd txn_id unit fc data =
     st\<lparr>tcp_tx := tcp_tx st @
       [(client_fd, put_be16 txn_id @ put_be16 0 @ put_be16 (1 + 1 + of_nat (length data))
                    @ [unit, fc] @ data)]\<rparr>"

definition send_tcp_error :: "proxy \<Rightarrow> int \<Rightarrow> u16 \<Rightarrow> u8 \<Rightarrow> u8 \<Rightarrow> u8 \<Rightarrow> proxy" where
  "send_tcp_error st client_fd txn_id unit fc err =
     send_tcp_response st client_fd txn_id unit (fc OR 0x80) [err]"

text \<open>
  \<^verbatim>\<open>read_sunspec_registers_\<close>: \<open>None\<close> is the return value \<^verbatim>\<open>false\<close>, \<open>Some\<close> holds the
  words copied to \<^verbatim>\<open>out\<close>. The sum \<^verbatim>\<open>off + count\<close> is computed in \<^verbatim>\<open>int\<close> and cannot wrap.
\<close>

definition read_sunspec_registers :: "proxy \<Rightarrow> u16 \<Rightarrow> u16 \<Rightarrow> u16 list option" where
  "read_sunspec_registers st start_reg count =
     (if start_reg < SUNSPEC_BASE then None
      else let off = start_reg - SUNSPEC_BASE
           in if unat off + unat count > TOTAL_REGS then None
              else Some (take (unat count) (drop (unat off) (register_map st))))"

text \<open>The loop \<^verbatim>\<open>for (i = 0; i < count; i++) register_map_[off + i] = values[i]\<close>.\<close>

fun store_regs :: "u16 list \<Rightarrow> nat \<Rightarrow> u16 list \<Rightarrow> u16 list" where
  "store_regs m off [] = m"
| "store_regs m off (v # vs) = store_regs (m[off := v]) (Suc off) vs"

text \<open>
  \<^verbatim>\<open>write_sunspec_registers_\<close> returns its boolean together with the new state. The flag
  \<open>changed\<close> is computed as in the source: by scanning the register numbers of the written
  range.
\<close>

definition write_sunspec_registers :: "proxy \<Rightarrow> u16 \<Rightarrow> u16 \<Rightarrow> u16 list \<Rightarrow> bool \<times> proxy" where
  "write_sunspec_registers st start_reg count values =
     (if start_reg < SUNSPEC_BASE then (False, st)
      else let off = unat (start_reg - SUNSPEC_BASE)
           in if off < OFF_M123 + 2 \<or> off + unat count > OFF_END then (False, st)
              else let st1 = st\<lparr>register_map :=
                                  store_regs (register_map st) off (take (unat count) values)\<rparr>;
                       lim_off = OFF_M123 + 2 + 5;
                       ena_off = OFF_M123 + 2 + 8;
                       changed = list_ex (\<lambda>r. r = lim_off \<or> r = ena_off) [off ..< off + unat count]
                   in if changed
                      then (let pct = register_map st1 ! lim_off;
                                ena = register_map st1 ! ena_off
                            in (True, forward_power_limit st1 pct (ena = 1)))
                      else (True, st1))"

definition bump_tcp_error :: "proxy \<Rightarrow> proxy" where
  "bump_tcp_error st = st\<lparr>tcp_error_count := tcp_error_count st + 1\<rparr>"

text \<open>The three cases of the \<^verbatim>\<open>switch (fc)\<close> of \<^verbatim>\<open>process_tcp_request_\<close> and its default.\<close>

definition handle_read_holding :: "proxy \<Rightarrow> int \<Rightarrow> u16 \<Rightarrow> u8 \<Rightarrow> u8 \<Rightarrow> u8 list \<Rightarrow> proxy" where
  "handle_read_holding st client_fd txn_id unit fc buf =
     (if length buf < 12 then st
      else let start = be16 (buf ! 8) (buf ! 9);
               count = be16 (buf ! 10) (buf ! 11)
           in if count > 125
              then bump_tcp_error (send_tcp_error st client_fd txn_id unit fc 0x03)
              else (case read_sunspec_registers st start count of
                      None \<Rightarrow> bump_tcp_error (send_tcp_error st client_fd txn_id unit fc 0x02)
                    | Some values \<Rightarrow>
                        send_tcp_response st client_fd txn_id unit fc
                          (ucast (count * 2) # concat (map put_be16 values))))"

definition handle_write_single :: "proxy \<Rightarrow> int \<Rightarrow> u16 \<Rightarrow> u8 \<Rightarrow> u8 \<Rightarrow> u8 list \<Rightarrow> proxy" where
  "handle_write_single st client_fd txn_id unit fc buf =
     (if length buf < 12 then st
      else let reg = be16 (buf ! 8) (buf ! 9);
               val = be16 (buf ! 10) (buf ! 11)
           in (case write_sunspec_registers st reg 1 [val] of
                 (False, st1) \<Rightarrow> bump_tcp_error (send_tcp_error st1 client_fd txn_id unit fc 0x02)
               | (True, st1) \<Rightarrow>
                   send_tcp_response st1 client_fd txn_id unit fc (put_be16 reg @ put_be16 val)))"

definition handle_write_multiple :: "proxy \<Rightarrow> int \<Rightarrow> u16 \<Rightarrow> u8 \<Rightarrow> u8 \<Rightarrow> u8 list \<Rightarrow> proxy" where
  "handle_write_multiple st client_fd txn_id unit fc buf =
     (if length buf < 13 then st
      else let reg = be16 (buf ! 8) (buf ! 9);
               cnt = be16 (buf ! 10) (buf ! 11)
           in if length buf < 13 + unat cnt * 2 \<or> cnt > 100
              then bump_tcp_error (send_tcp_error st client_fd txn_id unit fc 0x03)
              else let vals = map (\<lambda>i. be16 (buf ! (13 + i * 2)) (buf ! (13 + i * 2 + 1)))
                                  [0 ..< unat cnt]
                   in (case write_sunspec_registers st reg cnt vals of
                         (False, st1) \<Rightarrow>
                           bump_tcp_error (send_tcp_error st1 client_fd txn_id unit fc 0x02)
                       | (True, st1) \<Rightarrow>
                           send_tcp_response st1 client_fd txn_id unit fc
                             (put_be16 reg @ put_be16 cnt)))"

text \<open>
  \<^verbatim>\<open>process_tcp_request_\<close> on the bytes of one \<^verbatim>\<open>recv\<close>; \<open>now\<close> is the value of
  \<^verbatim>\<open>millis()\<close>.
\<close>

definition process_tcp_request :: "proxy \<Rightarrow> u32 \<Rightarrow> int \<Rightarrow> u8 list \<Rightarrow> proxy" where
  "process_tcp_request st now client_fd buf =
     (if length buf < 8 then st
      else let txn_id = be16 (buf ! 0) (buf ! 1);
               proto = be16 (buf ! 2) (buf ! 3);
               unit = buf ! 6;
               fc = buf ! 7
           in if proto \<noteq> 0 then st
              else let st1 = st\<lparr>last_tcp_activity_ms := now,
                                 tcp_request_count := tcp_request_count st + 1\<rparr>
                   in if unit \<noteq> unit_id (agg_config st1) then st1
                      else if fc = 0x03 then handle_read_holding st1 client_fd txn_id unit fc buf
                      else if fc = 0x06 then handle_write_single st1 client_fd txn_id unit fc buf
                      else if fc = 0x10 then handle_write_multiple st1 client_fd txn_id unit fc buf
                      else bump_tcp_error (send_tcp_error st1 client_fd txn_id unit fc 0x01))"

section \<open>Building the static register image\<close>

text \<open>
  \<^verbatim>\<open>write_string_regs\<close>: the registers are cleared, then character \<open>i\<close> goes to the high
  byte of register \<open>i / 2\<close> when \<open>i\<close> is even and is or-ed into the low byte when odd.
\<close>

fun write_chars :: "u16 list \<Rightarrow> nat \<Rightarrow> u8 list \<Rightarrow> u16 list" where
  "write_chars regs i [] = regs"
| "write_chars regs i (c # cs) =
     write_chars (if i mod 2 = 0 then regs[i div 2 := push_bit 8 (ucast c)]
                  else regs[i div 2 := (regs ! (i div 2)) OR ucast c]) (Suc i) cs"

definition write_string_regs :: "u8 list \<Rightarrow> nat \<Rightarrow> u16 list" where
  "write_string_regs str max_regs =
     write_chars (replicate max_regs 0) 0 (take (max_regs * 2) str)"

definition version_string :: "u8 list" where
  "version_string = [0x31, 0x2E, 0x31, 0x2E, 0x30]"

definition build_static_registers :: "(f32 \<Rightarrow> int) \<Rightarrow> proxy \<Rightarrow> proxy" where
  "build_static_registers ub st =
     (let cfg = agg_config st;
          r0 = replicate TOTAL_REGS (0xFFFF :: u16);
          r1 = r0[OFF_SUNS := 0x5375, OFF_SUNS + 1 := 0x6e53];
          r2 = r1[OFF_MODEL1 := 1, OFF_MODEL1 + 1 := of_nat MODEL_1_SIZE];
          m1 = OFF_MODEL1 + 2;
          r3 = store_regs r2 m1 (replicate MODEL_1_SIZE 0);
          r4 = store_regs r3 (m1 + 0) (write_string_regs (manufacturer cfg) 16);
          r5 = store_regs r4 (m1 + 16) (write_string_regs (model_name cfg) 16);
          r6 = store_regs r5 (m1 + 40) (write_string_regs version_string 8);
          r7 = store_regs r6 (m1 + 48) (write_string_regs (agg_serial_number cfg) 16);
          r8 = r7[m1 + 64 := ucast (unit_id cfg), m1 + 65 := 0x8000];
          model_id = (if agg_phases cfg = 3 then 103 else 101 :: u16);
          r9 = r8[OFF_INV := model_id, OFF_INV + 1 := of_nat MODEL_103_SIZE];
          inv = OFF_INV + 2;
          r10 = store_regs r9 inv (replicate MODEL_103_SIZE 0xFFFF);
          r11 = r10[inv + INV_A_SF := - 2, inv + INV_V_SF := - 1, inv + INV_W_SF := 0,
                    inv + INV_Hz_SF := - 2, inv + INV_VA_SF := 0, inv + INV_VAr_SF := 0,
                    inv + INV_PF_SF := - 2, inv + INV_WH_SF := 0, inv + INV_DCA_SF := - 2,
                    inv + INV_DCV_SF := - 1, inv + INV_DCW_SF := 0, inv + INV_Tmp_SF := - 1];
          r12 = r11[inv + INV_St := 2,
                    inv + INV_Evt1 := 0, inv + INV_Evt1 + 1 := 0,
                    inv + INV_Evt2 := 0, inv + INV_Evt2 + 1 := 0,
                    inv + INV_EvtVnd1 := 0, inv + INV_EvtVnd1 + 1 := 0,
                    inv + INV_EvtVnd2 := 0, inv + INV_EvtVnd2 + 1 := 0,
                    inv + INV_EvtVnd3 := 0, inv + INV_EvtVnd3 + 1 := 0,
                    inv + INV_EvtVnd4 := 0, inv + INV_EvtVnd4 + 1 := 0];
          r13 = r12[OFF_M120 := 120, OFF_M120 + 1 := of_nat MODEL_120_SIZE];
          m120 = OFF_M120 + 2;
          r14 = store_regs r13 m120 (replicate MODEL_120_SIZE 0xFFFF);
          r15 = r14[m120 + 0 := 4,
                    m120 + 1 := agg_rated_power_w cfg,
                    m120 + 2 := 0,
                    m120 + 3 := agg_rated_power_w cfg,
                    m120 + 4 := 0,
                    m120 + 10 := f2u16 ub (f_mul (rated_current_a cfg) (Fin 10)),
                    m120 + 11 := - 1];
          r16 = r15[OFF_M123 := 123, OFF_M123 + 1 := of_nat MODEL_123_SIZE];
          m123 = OFF_M123 + 2;
          r17 = store_regs r16 m123 (replicate MODEL_123_SIZE 0xFFFF);
          r18 = r17[m123 + 2 := 1, m123 + 3 := - 1, m123 + 5 := 1000, m123 + 8 := 0];
          r19 = r18[OFF_END := 0xFFFF, OFF_END + 1 := 0]
      in st\<lparr>register_map := r19\<rparr>)"

section \<open>Configuration and start-up\<close>

definition MAX_RTU_SOURCES :: nat where "MAX_RTU_SOURCES = 8"

text \<open>The characters of a \<^verbatim>\<open>std::string\<close> that \<^verbatim>\<open>strncpy(dst, s.c_str(), n)\<close> copies.\<close>

definition copy_cstr :: "nat \<Rightarrow> u8 list \<Rightarrow> u8 list" where
  "copy_cstr n s = take n (takeWhile (\<lambda>c. c \<noteq> 0) s)"

definition add_rtu_source ::
  "proxy \<Rightarrow> u8 \<Rightarrow> u8 \<Rightarrow> u16 \<Rightarrow> u8 \<Rightarrow> u8 \<Rightarrow> u8 list \<Rightarrow> u8 list \<Rightarrow> u8 list \<Rightarrow> proxy" where
  "add_rtu_source st port phs rated conn_phase mppt nm mdl serial =
     (if length (sources st) \<ge> MAX_RTU_SOURCES then st
      else st\<lparr>sources := sources st @
        [\<lparr>port_number = port, phases = phs,
          connected_phase = (if phs = 1 then conn_phase else 0),
          rated_power_w = rated, mppt_inputs = mppt,
          name = copy_cstr 31 nm, model = copy_cstr 23 mdl,
          serial_number = copy_cstr 32 serial, serial_from_dtu = [],
          raw_regs = replicate MODEL_103_SIZE 0,
          data_valid = False, last_poll_ms = 0, initial_model1_read = False,
          poll_success_count = 0, poll_fail_count = 0, poll_timeout_count = 0,
          crc_error_count = 0,
          power_w = Fin 0, current_a = Fin 0, voltage_v = Fin 0, frequency_hz = Fin 0,
          energy_kwh = Fin 0, today_energy_wh = Fin 0, temperature_c = Fin 0,
          pv_voltage_v = Fin 0, pv_current_a = Fin 0, pv_power_w = Fin 0, alarm_code = 0, alarm_count = 0, link_status = 0,
          operating_status = 0, producing = False\<rparr>]\<rparr>)"

text \<open>
  The component as constructed, before any setter runs: the default member initialisers of
  the class. The register array has no initialiser; \<^verbatim>\<open>build_static_registers_\<close> overwrites
  all of it.
\<close>

definition proxy_init :: proxy where
  "proxy_init =
     \<lparr>poll_interval_ms = 5000, rtu_timeout_ms = 3000, dtu_address = 126,
      agg_config = \<lparr>unit_id = 0, agg_phases = 0, agg_rated_power_w = 0, rated_voltage_v = 0,
                    rated_current_a = Fin 0, manufacturer = [], model_name = [],
                    agg_serial_number = []\<rparr>,
      sources = [], tcp_request_count = 0, tcp_error_count = 0, last_tcp_activity_ms = 0,
      current_poll_source = 0, last_poll_time = 0, rtu_busy = False, rtu_request_time = 0,
      register_map = replicate TOTAL_REGS 0,
      agg_power_w = Fin 0, agg_current_a = Fin 0, agg_voltage_v = Fin 0,
      agg_frequency_hz = Fin 0, agg_energy_kwh = Fin 0, uart_rx = [], uart_tx = [], tcp_tx = []\<rparr>"

text \<open>
  \<^verbatim>\<open>setup()\<close>: the rated power and current of the aggregate are summed over the sources,
  the current in \<^verbatim>\<open>float\<close> with a rounded quotient and a rounded sum for every source; then
  the image is built. Opening the listening socket is outside the model.
\<close>

definition add_rating :: "RtuSource \<Rightarrow> AggregatedConfig \<Rightarrow> AggregatedConfig" where
  "add_rating s c =
     (let c1 = c\<lparr>agg_rated_power_w := agg_rated_power_w c + rated_power_w s\<rparr>
      in if rated_voltage_v c1 > 0
         then c1\<lparr>rated_current_a :=
                   f_add (rated_current_a c1)
                     (f_div (f_of_int (uint (rated_power_w s)))
                            (f_of_int (uint (rated_voltage_v c1))))\<rparr>
         else c1)"

definition proxy_setup :: "(f32 \<Rightarrow> int) \<Rightarrow> proxy \<Rightarrow> proxy" where
  "proxy_setup ub st =
     (let c0 = (agg_config st)\<lparr>agg_rated_power_w := 0, rated_current_a := Fin 0\<rparr>;
          c = fold add_rating (sources st) c0
      in build_static_registers ub (st\<lparr>agg_config := c\<rparr>))"

section \<open>Aggregation (\<^verbatim>\<open>aggregate_and_update_registers_\<close>)\<close>

text \<open>
  The scale-factor helpers; the sentinel "not implemented" gives a NaN. \<open>or0\<close> is the idiom
  \<^verbatim>\<open>std::isnan(x) ? 0 : x\<close>, \<open>acc_add\<close> the idiom \<^verbatim>\<open>if (!std::isnan(x)) t += x\<close>.
\<close>

definition apply_sf :: "u16 \<Rightarrow> u16 \<Rightarrow> f32" where
  "apply_sf raw sf =
     (if raw = 0x8000 then NaN else f_mul (f_of_int (sint raw)) (powf10 (sint sf)))"

definition apply_sf_u16 :: "u16 \<Rightarrow> u16 \<Rightarrow> f32" where
  "apply_sf_u16 raw sf =
     (if raw = 0xFFFF then NaN else f_mul (f_of_int (uint raw)) (powf10 (sint sf)))"

definition or0 :: "f32 \<Rightarrow> f32" where
  "or0 x = (if x = NaN then Fin 0 else x)"

definition acc_add :: "f32 \<Rightarrow> f32 \<Rightarrow> f32" where
  "acc_add t x = (if x = NaN then t else f_add t x)"

text \<open>The local accumulators of the function.\<close>

record agg_acc =
  phase_power :: "f32 list"
  phase_current :: "f32 list"
  phase_voltage_sum :: "f32 list"
  phase_voltage_count :: "nat list"
  total_power :: f32
  total_current :: f32
  sum_freq :: f32
  total_va :: f32
  total_var :: f32
  total_energy_wh :: u32
  max_temp :: f32
  total_dc_power :: f32
  valid_count :: nat
  any_producing :: bool

definition agg_init :: agg_acc where
  "agg_init =
     \<lparr>phase_power = [Fin 0, Fin 0, Fin 0], phase_current = [Fin 0, Fin 0, Fin 0],
      phase_voltage_sum = [Fin 0, Fin 0, Fin 0], phase_voltage_count = [0, 0, 0],
      total_power = Fin 0, total_current = Fin 0, sum_freq = Fin 0, total_va = Fin 0,
      total_var = Fin 0, total_energy_wh = 0, max_temp = NaN, total_dc_power = Fin 0,
      valid_count = 0, any_producing = False\<rparr>"

definition add_at :: "f32 list \<Rightarrow> nat \<Rightarrow> f32 \<Rightarrow> f32 list" where
  "add_at xs i v = xs[i := f_add (xs ! i) v]"

definition add_opt_at :: "f32 list \<Rightarrow> nat \<Rightarrow> f32 \<Rightarrow> f32 list" where
  "add_opt_at xs i x = (if x = NaN then xs else add_at xs i x)"

definition count_opt_at :: "nat list \<Rightarrow> nat \<Rightarrow> f32 \<Rightarrow> nat list" where
  "count_opt_at xs i x = (if x = NaN then xs else xs[i := xs ! i + 1])"

text \<open>The branch \<^verbatim>\<open>if (s.phases == 3)\<close> of the loop body.\<close>

definition agg_three_phase ::
  "agg_acc \<Rightarrow> RtuSource \<Rightarrow> f32 \<Rightarrow> u16 \<Rightarrow> u16 \<Rightarrow> agg_acc \<times> RtuSource" where
  "agg_three_phase a s pw a_sf v_sf =
     (let r = raw_regs s;
          i_a = apply_sf_u16 (r ! INV_AphA) a_sf;
          i_b = apply_sf_u16 (r ! INV_AphB) a_sf;
          i_c = apply_sf_u16 (r ! INV_AphC) a_sf;
          pc = add_opt_at (add_opt_at (add_opt_at (phase_current a) 0 i_a) 1 i_b) 2 i_c;
          v_a = apply_sf_u16 (r ! INV_PhVphA) v_sf;
          v_b = apply_sf_u16 (r ! INV_PhVphB) v_sf;
          v_c = apply_sf_u16 (r ! INV_PhVphC) v_sf;
          vs = add_opt_at (add_opt_at (add_opt_at (phase_voltage_sum a) 0 v_a) 1 v_b) 2 v_c;
          vc = count_opt_at (count_opt_at (count_opt_at (phase_voltage_count a) 0 v_a) 1 v_b) 2 v_c;
          total_i = f_add (f_add (or0 i_a) (or0 i_b)) (or0 i_c);
          pp = (if f_gt total_i (Fin 0) \<and> pw \<noteq> NaN
                then add_at (add_at (add_at (phase_power a)
                               0 (f_div (f_mul pw (or0 i_a)) total_i))
                               1 (f_div (f_mul pw (or0 i_b)) total_i))
                               2 (f_div (f_mul pw (or0 i_c)) total_i)
                else if pw \<noteq> NaN
                then add_at (add_at (add_at (phase_power a)
                               0 (f_div pw (Fin 3))) 1 (f_div pw (Fin 3))) 2 (f_div pw (Fin 3))
                else phase_power a)
      in (a\<lparr>phase_power := pp, phase_current := pc, phase_voltage_sum := vs,
             phase_voltage_count := vc\<rparr>,
          s\<lparr>voltage_v := or0 v_a\<rparr>))"

text \<open>The \<^verbatim>\<open>else\<close> branch: a single-phase source feeds \<^verbatim>\<open>connected_phase\<close>.\<close>

definition agg_single_phase ::
  "agg_acc \<Rightarrow> RtuSource \<Rightarrow> f32 \<Rightarrow> f32 \<Rightarrow> u16 \<Rightarrow> u16 \<Rightarrow> agg_acc \<times> RtuSource" where
  "agg_single_phase a s pw cur a_sf v_sf =
     (let r = raw_regs s;
          ph0 = int (unat (connected_phase s)) - 1;
          ph = (if ph0 < 0 \<or> ph0 > 2 then 0 else nat ph0);
          i_a0 = apply_sf_u16 (r ! INV_AphA) a_sf;
          i_a = (if i_a0 = NaN then cur else i_a0);
          pc = add_opt_at (phase_current a) ph i_a;
          v_a = apply_sf_u16 (r ! INV_PhVphA) v_sf;
          vs = add_opt_at (phase_voltage_sum a) ph v_a;
          vc = count_opt_at (phase_voltage_count a) ph v_a;
          pp = add_opt_at (phase_power a) ph pw
      in (a\<lparr>phase_power := pp, phase_current := pc, phase_voltage_sum := vs,
             phase_voltage_count := vc\<rparr>,
          s\<lparr>voltage_v := or0 v_a\<rparr>))"

text \<open>
  One iteration of the loop over the sources. The call of \<^verbatim>\<open>update_source_status_\<close> at its
  end only publishes a text sensor and is left out.
\<close>

definition agg_source :: "(f32 \<Rightarrow> int) \<Rightarrow> agg_acc \<Rightarrow> RtuSource \<Rightarrow> agg_acc \<times> RtuSource" where
  "agg_source ub a0 s0 =
     (if \<not> data_valid s0 then (a0, s0)
      else
        let a1 = a0\<lparr>valid_count := valid_count a0 + 1\<rparr>;
            r = raw_regs s0;
            a_sf = r ! INV_A_SF;
            v_sf = r ! INV_V_SF;
            w_sf = r ! INV_W_SF;
            hz_sf = r ! INV_Hz_SF;
            va_sf = r ! INV_VA_SF;
            var_sf = r ! INV_VAr_SF;
            wh_sf = r ! INV_WH_SF;
            dc_w_sf = r ! INV_DCW_SF;
            tmp_sf = r ! INV_Tmp_SF;
            pw = apply_sf (r ! INV_W) w_sf;
            a2 = (if pw = NaN then a1
                  else a1\<lparr>total_power := f_add (total_power a1) pw,
                          any_producing := (if f_gt pw (Fin 0) then True else any_producing a1)\<rparr>);
            s1 = s0\<lparr>power_w := or0 pw\<rparr>;
            cur = apply_sf_u16 (r ! INV_A) a_sf;
            a3 = a2\<lparr>total_current := acc_add (total_current a2) cur\<rparr>;
            s2 = s1\<lparr>current_a := or0 cur\<rparr>;
            (a4, s3) = (if phases s2 = 3 then agg_three_phase a3 s2 pw a_sf v_sf
                        else agg_single_phase a3 s2 pw cur a_sf v_sf);
            va = apply_sf (r ! INV_VA) va_sf;
            a5 = a4\<lparr>total_va := acc_add (total_va a4) va\<rparr>;
            var = apply_sf (r ! INV_VAr) var_sf;
            a6 = a5\<lparr>total_var := acc_add (total_var a5) var\<rparr>;
            freq = apply_sf (r ! INV_Hz) hz_sf;
            a7 = a6\<lparr>sum_freq := acc_add (sum_freq a6) freq\<rparr>;
            s4 = s3\<lparr>frequency_hz := or0 freq\<rparr>;
            e_raw = (push_bit 16 (ucast (r ! INV_WH)) OR ucast (r ! (INV_WH + 1)) :: u32);
            e_mult = powf10 (sint wh_sf);
            e_wh = f2u32 ub (f_mul (f_of_int (uint e_raw)) e_mult);
            a8 = a7\<lparr>total_energy_wh := total_energy_wh a7 + e_wh\<rparr>;
            s5 = s4\<lparr>energy_kwh := f_div (f_of_int (uint e_wh)) (Fin 1000)\<rparr>;
            temp = apply_sf (r ! INV_TmpCab) tmp_sf;
            a9 = (if temp = NaN then a8
                  else a8\<lparr>max_temp := (if max_temp a8 = NaN \<or> f_gt temp (max_temp a8)
                                         then temp else max_temp a8)\<rparr>);
            s6 = (if temp = NaN then s5 else s5\<lparr>temperature_c := temp\<rparr>);
            dcp = apply_sf (r ! INV_DCW) dc_w_sf;
            a10 = a9\<lparr>total_dc_power := acc_add (total_dc_power a9) dcp\<rparr>;
            s7 = s6\<lparr>producing := f_gt (power_w s6) (Fin 0)\<rparr>
        in (a10, s7))"

fun agg_loop ::
  "(f32 \<Rightarrow> int) \<Rightarrow> agg_acc \<Rightarrow> RtuSource list \<Rightarrow> agg_acc \<times> RtuSource list" where
  "agg_loop ub a [] = (a, [])"
| "agg_loop ub a (s # ss) =
     (let (a1, s1) = agg_source ub a s;
          (a2, ss1) = agg_loop ub a1 ss
      in (a2, s1 # ss1))"

text \<open>The line-to-line voltage \<^verbatim>\<open>sqrtf(x*x + y*y + x*y)\<close>.\<close>

definition v_ll :: "f32 \<Rightarrow> f32 \<Rightarrow> f32" where
  "v_ll x y = f_sqrt (f_add (f_add (f_mul x x) (f_mul y y)) (f_mul x y))"

text \<open>The average \<^verbatim>\<open>count > 0 ? sum / count : 0\<close> of the voltages of one phase.\<close>

definition avg_phase :: "agg_acc \<Rightarrow> nat \<Rightarrow> f32" where
  "avg_phase a p =
     (if phase_voltage_count a ! p > 0
      then f_div (phase_voltage_sum a ! p) (f_of_int (int (phase_voltage_count a ! p)))
      else Fin 0)"

definition encode_registers :: "(f32 \<Rightarrow> int) \<Rightarrow> proxy \<Rightarrow> agg_acc \<Rightarrow> u16 list" where
  "encode_registers ub st a =
     (let inv = OFF_INV + 2;
          avg_v = map (avg_phase a) [0, 1, 2];
          m0 = register_map st;
          m1 = m0[inv + INV_W := f2s16 ub (total_power a)];
          m2 = m1[inv + INV_A := f2u16 ub (f_mul (total_current a) (Fin 100)),
                  inv + INV_AphA := f2u16 ub (f_mul (phase_current a ! 0) (Fin 100)),
                  inv + INV_AphB := f2u16 ub (f_mul (phase_current a ! 1) (Fin 100)),
                  inv + INV_AphC := f2u16 ub (f_mul (phase_current a ! 2) (Fin 100))];
          m3 = m2[inv + INV_PhVphA := f2u16 ub (f_mul (avg_v ! 0) (Fin 10)),
                  inv + INV_PhVphB := f2u16 ub (f_mul (avg_v ! 1) (Fin 10)),
                  inv + INV_PhVphC := f2u16 ub (f_mul (avg_v ! 2) (Fin 10))];
          m4 = (if agg_phases (agg_config st) = 3
                then m3[inv + INV_PPVphAB := f2u16 ub (f_mul (v_ll (avg_v ! 0) (avg_v ! 1)) (Fin 10)),
                        inv + INV_PPVphBC := f2u16 ub (f_mul (v_ll (avg_v ! 1) (avg_v ! 2)) (Fin 10)),
                        inv + INV_PPVphCA := f2u16 ub (f_mul (v_ll (avg_v ! 2) (avg_v ! 0)) (Fin 10))]
                else m3);
          m5 = m4[inv + INV_Hz :=
                    f2u16 ub (f_mul (f_div (sum_freq a) (f_of_int (int (valid_count a)))) (Fin 100))];
          m6 = m5[inv + INV_VA := f2s16 ub (total_va a), inv + INV_VAr := f2s16 ub (total_var a)];
          m7 = (if f_gt (total_va a) (Fin 0)
                then (let pf0 = f_div (total_power a) (total_va a);
                          pf = (if f_gt pf0 (Fin 1) then Fin 1 else pf0)
                      in m6[inv + INV_PF := f2s16 ub (f_mul pf (Fin 100))])
                else m6);
          m8 = m7[inv + INV_WH := ucast (drop_bit 16 (total_energy_wh a)),
                  inv + INV_WH + 1 := ucast (total_energy_wh a AND 0xFFFF)];
          m9 = (if max_temp a = NaN then m8
                else m8[inv + INV_TmpCab := f2s16 ub (f_mul (max_temp a) (Fin 10))]);
          m10 = (if f_gt (total_dc_power a) (Fin 0)
                 then m9[inv + INV_DCW := f2s16 ub (total_dc_power a)]
                 else m9)
      in m10[inv + INV_St := (if any_producing a then 4 else 2)])"

definition aggregate_and_update_registers :: "(f32 \<Rightarrow> int) \<Rightarrow> proxy \<Rightarrow> proxy" where
  "aggregate_and_update_registers ub st =
     (let inv = OFF_INV + 2;
          (a, srcs) = agg_loop ub agg_init (sources st);
          st1 = st\<lparr>sources := srcs\<rparr>
      in if valid_count a = 0
         then st1\<lparr>register_map := (register_map st1)[inv + INV_St := 2],
                  agg_power_w := Fin 0, agg_current_a := Fin 0, agg_voltage_v := Fin 0,
                  agg_frequency_hz := Fin 0\<rparr>
         else st1\<lparr>agg_power_w := total_power a,
                  agg_current_a := total_current a,
                  agg_voltage_v := avg_phase a 0,
                  agg_frequency_hz := f_div (sum_freq a) (f_of_int (int (valid_count a))),
                  agg_energy_kwh := f_div (f_of_int (uint (total_energy_wh a))) (Fin 1000),
                  register_map := encode_registers ub st1 a\<rparr>)"

section \<open>The RTU poller (\<^verbatim>\<open>poll_rtu_sources_\<close>)\<close>

text \<open>
  \<^verbatim>\<open>send_rtu_request_\<close> drains the receive buffer, writes the eight bytes of the request
  and returns \<^verbatim>\<open>true\<close>.
\<close>

definition send_rtu_request :: "proxy \<Rightarrow> u8 \<Rightarrow> u8 \<Rightarrow> u16 \<Rightarrow> u16 \<Rightarrow> bool \<times> proxy" where
  "send_rtu_request st address function reg_start reg_count =
     (let frame = [address, function] @ put_be16 reg_start @ put_be16 reg_count;
          crc = calc_crc16 frame
      in (True, st\<lparr>uart_rx := [],
                   uart_tx := uart_tx st @
                     [frame @ [ucast (crc AND 0xFF), ucast ((drop_bit 8 crc) AND 0xFF)]]\<rparr>))"

text \<open>
  \<^verbatim>\<open>read_rtu_response_\<close> takes up to \<open>max_len\<close> waiting bytes and returns 0 (fewer than five
  bytes), \<open>-1\<close> (CRC mismatch) or the number of bytes, together with the bytes read.
\<close>

definition read_rtu_response :: "proxy \<Rightarrow> nat \<Rightarrow> int \<times> u8 list \<times> proxy" where
  "read_rtu_response st max_len =
     (let buf = take max_len (uart_rx st);
          st1 = st\<lparr>uart_rx := drop max_len (uart_rx st)\<rparr>;
          n = length buf
      in if n < 5 then (0, buf, st1)
         else let expected = calc_crc16 (take (n - 2) buf);
                  received = (ucast (buf ! (n - 2)) OR push_bit 8 (ucast (buf ! (n - 1))) :: u16)
              in if expected \<noteq> received then (- 1, buf, st1) else (int n, buf, st1))"

text \<open>
  The response buffer is a local array of 256 bytes of which the first \<open>n\<close> were received.
  A frame whose byte count is larger than what arrived makes the code read the rest of the
  array; \<open>junk\<close> gives the content the array happens to have there.
\<close>

definition resp_at :: "(nat \<Rightarrow> u8) \<Rightarrow> u8 list \<Rightarrow> nat \<Rightarrow> u8" where
  "resp_at junk resp i = (if i < length resp then resp ! i else junk i)"

text \<open>The serial number: registers 1 to 6 as twelve characters, trailing NULs and blanks cut.\<close>

definition extract_serial :: "u16 list \<Rightarrow> u8 list" where
  "extract_serial reg_data =
     (let sn = concat (map (\<lambda>i. [ucast ((drop_bit 8 (reg_data ! (1 + i))) AND 0xFF),
                                  ucast ((reg_data ! (1 + i)) AND 0xFF)]) [0 ..< 6]);
          trimmed = rev (dropWhile (\<lambda>c. c = 0 \<or> c = 0x20) (rev sn))
      in takeWhile (\<lambda>c. c \<noteq> 0) trimmed)"

text \<open>The body of \<^verbatim>\<open>if (reg_count >= 34)\<close> up to the call of the aggregator.\<close>

definition parse_port_block :: "RtuSource \<Rightarrow> u32 \<Rightarrow> u16 list \<Rightarrow> RtuSource" where
  "parse_port_block s0 now reg_data =
     (let s1 = (if \<not> initial_model1_read s0
                then (let sn = extract_serial reg_data;
                          sa = (if sn \<noteq> []
                                then (let sb = s0\<lparr>serial_from_dtu := sn\<rparr>
                                      in if serial_number sb = [] then sb\<lparr>serial_number := sn\<rparr>
                                         else sb)
                                else s0)
                      in sa\<lparr>initial_model1_read := True\<rparr>)
                else s0);
          s2 = s1\<lparr>pv_voltage_v := f_of_int (uint (reg_data ! HM_PV_VOLTAGE)),
                  pv_current_a := f_div (f_of_int (uint (reg_data ! HM_PV_CURRENT))) (Fin 2),
                  voltage_v := f_of_int (uint (reg_data ! HM_GRID_VOLTAGE)),
                  frequency_hz := f_div (f_of_int (uint (reg_data ! HM_GRID_FREQ))) (Fin 100),
                  pv_power_w := f_of_int (uint (reg_data ! HM_PV_POWER))\<rparr>;
          s3 = s2\<lparr>power_w := pv_power_w s2\<rparr>;
          today_wh = (push_bit 16 (ucast (reg_data ! HM_TODAY_PROD_H))
                        OR ucast (reg_data ! HM_TODAY_PROD_L) :: u32);
          total_wh = (push_bit 16 (ucast (reg_data ! HM_TOTAL_PROD_H))
                        OR ucast (reg_data ! HM_TOTAL_PROD_L) :: u32);
          s4 = s3\<lparr>today_energy_wh := f_of_int (uint today_wh),
                  energy_kwh := f_div (f_of_int (uint total_wh)) (Fin 1000),
                  temperature_c := f_of_int (sint (reg_data ! HM_TEMPERATURE)),
                  operating_status := reg_data ! HM_OPERATING_STATUS,
                  alarm_code := reg_data ! HM_ALARM_CODE,
                  link_status := ucast ((reg_data ! HM_LINK_STATUS) AND 0xFF)\<rparr>;
          s5 = s4\<lparr>producing := f_gt (power_w s4) (Fin 0)\<rparr>;
          s6 = (if f_gt (voltage_v s5) (Fin 0)
                then s5\<lparr>current_a := f_div (power_w s5) (voltage_v s5)\<rparr> else s5)
      in s6\<lparr>data_valid := True, last_poll_ms := now,
             poll_success_count := poll_success_count s6 + 1\<rparr>)"

definition bump_poll_fail :: "proxy \<Rightarrow> proxy" where
  "bump_poll_fail st =
     (let i = current_poll_source st; s = sources st ! i
      in st\<lparr>sources := (sources st)[i := s\<lparr>poll_fail_count := poll_fail_count s + 1\<rparr>]\<rparr>)"

text \<open>The branch \<^verbatim>\<open>if (n > 0)\<close>: a frame with a good CRC has arrived.\<close>

definition handle_rtu_frame ::
  "(nat \<Rightarrow> u8) \<Rightarrow> (f32 \<Rightarrow> int) \<Rightarrow> u32 \<Rightarrow> proxy \<Rightarrow> int \<Rightarrow> u8 list \<Rightarrow> proxy" where
  "handle_rtu_frame junk ub now st n resp =
     (let i = current_poll_source st;
          s = sources st ! i;
          st1 =
            (if n \<ge> 5 \<and> resp_at junk resp 1 = 0x03 then
               (let byte_count = resp_at junk resp 2;
                    reg_count = unat byte_count div 2;
                    reg_data = map (\<lambda>k. be16 (resp_at junk resp (3 + k * 2))
                                               (resp_at junk resp (3 + k * 2 + 1)))
                                   [0 ..< min reg_count 64]
                in if reg_count \<ge> 34
                   then aggregate_and_update_registers ub
                          (st\<lparr>sources := (sources st)[i := parse_port_block s now reg_data]\<rparr>)
                   else bump_poll_fail st)
             else if n \<ge> 2 \<and> (resp_at junk resp 1) AND 0x80 \<noteq> 0 then bump_poll_fail st
             else bump_poll_fail st)
      in st1\<lparr>rtu_busy := False\<rparr>)"

definition poll_rtu_sources ::
  "(nat \<Rightarrow> u8) \<Rightarrow> (f32 \<Rightarrow> int) \<Rightarrow> u32 \<Rightarrow> proxy \<Rightarrow> proxy" where
  "poll_rtu_sources junk ub now st =
     (if sources st = [] then st
      else if rtu_busy st then
        (let (n, resp, st1) = read_rtu_response st 256
         in if n > 0 then handle_rtu_frame junk ub now st1 n resp
            else if n = - 1 then
              (let i = current_poll_source st1; s = sources st1 ! i
               in st1\<lparr>sources := (sources st1)[i := s\<lparr>crc_error_count := crc_error_count s + 1,
                                                      poll_fail_count := poll_fail_count s + 1\<rparr>],
                      rtu_busy := False\<rparr>)
            else if now - rtu_request_time st1 > rtu_timeout_ms st1 then
              (let i = current_poll_source st1; s = sources st1 ! i
               in st1\<lparr>sources := (sources st1)[i := s\<lparr>poll_timeout_count :=
                                                        poll_timeout_count s + 1\<rparr>],
                      rtu_busy := False\<rparr>)
            else st1)
      else
        (let interval_per_source = poll_interval_ms st div of_nat (length (sources st))
         in if now - last_poll_time st < interval_per_source then st
            else
              (let s = sources st ! current_poll_source st;
                   port_base = HM_DATA_BASE + ucast (port_number s) * HM_PORT_STRIDE;
                   (ok, st1) = send_rtu_request st (dtu_address st) 0x03 port_base HM_PORT_REGS;
                   st2 = (if ok then st1\<lparr>rtu_busy := True, rtu_request_time := now\<rparr> else st1)
               in st2\<lparr>current_poll_source :=
                        (current_poll_source st2 + 1) mod length (sources st2),
                      last_poll_time := now\<rparr>)))"

section \<open>Frames as the interface description states them\<close>

text \<open>
  The frame the interface description gives for a write request: address, function code,
  register number and value as plain numbers, each split into a high and a low byte, then the
  CRC of these six bytes, low byte first.
\<close>

definition rtu_write_frame :: "u8 \<Rightarrow> u8 \<Rightarrow> nat \<Rightarrow> nat \<Rightarrow> u8 list" where
  "rtu_write_frame addr fc reg val =
     (let body = [addr, fc, of_nat (reg div 256), of_nat (reg mod 256),
                  of_nat (val div 256), of_nat (val mod 256)];
          crc = unat (calc_crc16 body)
      in body @ [of_nat (crc mod 256), of_nat (crc div 256)])"

definition clamp :: "nat \<Rightarrow> nat \<Rightarrow> nat \<Rightarrow> nat" where
  "clamp x lo hi = max lo (min hi x)"

text \<open>
  The MBAP frame of a response: transaction id, protocol 0, the length of what follows the
  length field (unit, function code, data), unit, function code and data.
\<close>

definition mbap_frame :: "u16 \<Rightarrow> u8 \<Rightarrow> u8 \<Rightarrow> u8 list \<Rightarrow> u8 list" where
  "mbap_frame txn unit fc pdu =
     put_be16 txn @ [0, 0] @ put_be16 (of_nat (length pdu + 2)) @ [unit, fc] @ pdu"

section \<open>Write ranges as the interface description states them\<close>

text \<open>
  A write of \<open>count\<close> registers from \<open>start\<close> lies in the writable slice when it starts at
  or after register 40152 (\<open>40000 + OFF_M123 + 2\<close>) and ends before 40176
  (\<open>40000 + OFF_END\<close>); it touches register \<open>r\<close> when \<open>r\<close> is one of the registers written.
  \<open>request_words\<close> are the data words of a Write Multiple Registers request.
\<close>

definition write_accepted :: "u16 \<Rightarrow> u16 \<Rightarrow> bool" where
  "write_accepted start count = (40152 \<le> unat start \<and> unat start + unat count \<le> 40176)"

definition write_touches :: "u16 \<Rightarrow> u16 \<Rightarrow> nat \<Rightarrow> bool" where
  "write_touches start count r = (unat start \<le> r \<and> r < unat start + unat count)"

definition request_words :: "u8 list \<Rightarrow> nat \<Rightarrow> u16 list" where
  "request_words buf n = map (\<lambda>i. be16 (buf ! (13 + 2 * i)) (buf ! (14 + 2 * i))) [0 ..< n]"

section \<open>The image after start-up as the layout describes it\<close>

text \<open>
  The inverter payload after the static build: the twelve scale factors at their offsets,
  \<open>St = 2\<close>, the twelve event words 0, every other word 0xFFFF.
\<close>

definition inverter_block_init :: "u16 list" where
  "inverter_block_init =
     [0xFFFF, 0xFFFF, 0xFFFF, 0xFFFF, - 2, 0xFFFF, 0xFFFF, 0xFFFF, 0xFFFF, 0xFFFF,
      0xFFFF, - 1, 0xFFFF, 0, 0xFFFF, - 2, 0xFFFF, 0, 0xFFFF, 0,
      0xFFFF, - 2, 0xFFFF, 0xFFFF, 0, 0xFFFF, - 2, 0xFFFF, - 1, 0xFFFF,
      0, 0xFFFF, 0xFFFF, 0xFFFF, 0xFFFF, - 1, 2, 0xFFFF, 0, 0,
      0, 0, 0, 0, 0, 0, 0, 0, 0, 0]"

section \<open>A configured example\<close>

text \<open>
  One single-phase source of 450 W on port 0, an aggregate of unit id 126 at 240 V; then
  \<^verbatim>\<open>setup()\<close>. No conversion of the example leaves the defined range, so the value given
  for \<open>ub\<close> does not matter. \<open>rated_sum\<close> is the sum of the sources' rated powers.
\<close>

definition example_config :: proxy where
  "example_config =
     add_rtu_source
       (proxy_init\<lparr>agg_config := (agg_config proxy_init)
          \<lparr>unit_id := 126, agg_phases := 1, rated_voltage_v := 240,
           manufacturer := [0x48, 0x4D], model_name := [0x41, 0x47, 0x47],
           agg_serial_number := [0x30, 0x31]\<rparr>\<rparr>)
       0 1 450 1 1 [0x73, 0x31] [0x48, 0x4D, 0x53] []"

definition example_proxy :: proxy where
  "example_proxy = proxy_setup (\<lambda>x. 0) example_config"

definition rated_sum :: "proxy \<Rightarrow> nat" where
  "rated_sum st = sum_list (map (\<lambda>s. unat (rated_power_w s)) (sources st))"

text \<open>
  The example after its first tick at time 5000, which sends the poll request; a response of
  the DTU to that request (a port block of 40 registers: serial 114182123456, PV 35 V and
  18.5 A, grid 230 V and 49.99 Hz, 650 W, 1234 Wh today, 12340 Wh in total, 42 degrees) with
  its CRC; and the example after the tick at time 5200 that finds this response waiting.
\<close>

definition example_polling :: proxy where
  "example_polling = poll_rtu_sources (\<lambda>i. 0) (\<lambda>x. 0) 5000 example_proxy"

definition example_block :: "u16 list" where
  "example_block =
     [0x000C, 0x3131, 0x3431, 0x3832, 0x3132, 0x3334, 0x3536, 0x0000, 0x0023, 0x0025,
      0x00E6, 0x1387, 0x028A, 0x0000, 0x04D2, 0x0000, 0x3034, 0x002A, 0x0000, 0x0000,
      0x0000, 0x0000, 0x0000, 0x0000, 0x0000, 0x0000, 0x0000, 0x0000, 0x0000, 0x0000,
      0x0003, 0x0000, 0x0001, 0x0000, 0x0000, 0x0000, 0x0000, 0x0000, 0x0000, 0x0000]"

definition example_response :: "u8 list" where
  "example_response =
     (let body = [126, 0x03, 80] @ concat (map put_be16 example_block);
          crc = calc_crc16 body
      in body @ [ucast (crc AND 0xFF), ucast (drop_bit 8 crc)])"

definition example_polled :: proxy where
  "example_polled =
     poll_rtu_sources (\<lambda>i. 0) (\<lambda>x. 0) 5200 (example_polling\<lparr>uart_rx := example_response\<rparr>)"

section \<open>Verification: single-precision arithmetic\<close>

text \<open>
  The exponent search returns the binade of its argument, so \<open>round32\<close> can be evaluated
  once the binade is known (\<open>round32_eval\<close>); a number with a significand of at most 24
  bits inside the exponent range is not changed by rounding (\<open>round32_exact\<close>); rounding a
  number that is not negative gives a number that is not negative, or the infinity.
\<close>

lemma rnd_even_of_int: "rnd_even (of_int n) = n"
  by (simp add: rnd_even_def)

lemma find_exp_lower: "find_exp n e a = e \<or> 2 powi (find_exp n e a) \<le> a"
proof (induction n arbitrary: e)
  case 0
  show ?case by simp
next
  case (Suc n)
  show ?case
  proof (cases "a < 2 powi (e + 1)")
    case True
    then show ?thesis by simp
  next
    case False
    from Suc [of "e + 1"] False show ?thesis by auto
  qed
qed

lemma find_exp_ge: "e \<le> find_exp n e a"
proof (induction n arbitrary: e)
  case 0
  show ?case by simp
next
  case (Suc n)
  from Suc [of "e + 1"] show ?case by auto
qed

lemma find_exp_eq:
  assumes "e \<le> r" and "r \<le> e + int n" and "a < 2 powi (r + 1)" and "r = e \<or> 2 powi r \<le> a"
  shows "find_exp n e a = r"
  using assms
proof (induction n arbitrary: e)
  case 0
  then show ?case by simp
next
  case (Suc n)
  show ?case
  proof (cases "r = e")
    case True
    with Suc.prems show ?thesis by simp
  next
    case False
    with Suc.prems have lo: "2 powi r \<le> a" and lt: "e + 1 \<le> r" by auto
    have "(2::real) powi (e + 1) \<le> 2 powi r"
      using lt by (intro power_int_increasing) auto
    with lo have "\<not> a < 2 powi (e + 1)" by simp
    moreover have "find_exp n (e + 1) a = r"
      using Suc.prems lt lo by (intro Suc.IH) auto
    ultimately show ?thesis by simp
  qed
qed

lemma f32_exponent_eq:
  assumes "- 126 \<le> r" and "r \<le> 127" and "a < 2 powi (r + 1)" and "r = - 126 \<or> 2 powi r \<le> a"
  shows "f32_exponent a = r"
  unfolding f32_exponent_def using assms by (intro find_exp_eq) auto

lemma round32_eval:
  assumes "- 126 \<le> r" and "r \<le> 127" and "\<bar>x\<bar> < 2 powi (r + 1)"
    and "r = - 126 \<or> 2 powi r \<le> \<bar>x\<bar>"
  shows "round32 x =
     (let y = of_int (rnd_even (x / 2 powi (r - 23))) * 2 powi (r - 23)
      in if \<bar>y\<bar> \<ge> 2 powi 128 then (if x > 0 then PInf else NInf) else Fin y)"
  unfolding round32_def f32_exponent_eq [OF assms] by (simp add: Let_def)

lemma round32_exact:
  assumes x: "x = of_int m * 2 powi k" and m: "\<bar>m\<bar> < 2 ^ 24" and k: "- 149 \<le> k" "k \<le> 104"
  shows "round32 x = Fin x"
proof -
  define e where "e = f32_exponent \<bar>x\<bar>"
  have ege: "- 126 \<le> e" unfolding e_def f32_exponent_def by (rule find_exp_ge)
  have ax: "\<bar>x\<bar> = of_int \<bar>m\<bar> * 2 powi k" by (simp add: x abs_mult)
  have ek: "e - 23 \<le> k"
  proof (cases "e = - 126")
    case True
    with k show ?thesis by simp
  next
    case False
    then have "2 powi e \<le> \<bar>x\<bar>"
      using find_exp_lower [of 253 "- 126" "\<bar>x\<bar>"] by (simp add: e_def f32_exponent_def)
    also have "\<bar>x\<bar> < 2 ^ 24 * 2 powi k"
      unfolding ax using m by (intro mult_strict_right_mono) (auto simp: of_int_less_iff [where 'a = real, symmetric] simp del: of_int_less_iff)
    also have "\<dots> = 2 powi (24 + k)" by (simp add: power_int_add)
    finally have lt: "(2::real) powi e < 2 powi (24 + k)" .
    have "e < 24 + k"
    proof (rule ccontr)
      assume "\<not> e < 24 + k"
      then have "(2::real) powi (24 + k) \<le> 2 powi e"
        by (intro power_int_increasing) auto
      with lt show False by simp
    qed
    then show ?thesis by simp
  qed
  define j where "j = nat (k - (e - 23))"
  have kj: "k = (e - 23) + int j" using ek by (simp add: j_def)
  have xq: "x / 2 powi (e - 23) = of_int (m * 2 ^ j)"
    by (simp add: x kj power_int_add)
  have y: "of_int (rnd_even (x / 2 powi (e - 23))) * 2 powi (e - 23) = x"
    unfolding xq rnd_even_of_int by (simp add: x kj power_int_add)
  have "\<bar>x\<bar> < 2 ^ 24 * 2 powi k"
    unfolding ax using m by (intro mult_strict_right_mono) (auto simp: of_int_less_iff [where 'a = real, symmetric] simp del: of_int_less_iff)
  also have "\<dots> = 2 powi (24 + k)" by (simp add: power_int_add)
  also have "\<dots> \<le> 2 powi 128" using k by (intro power_int_increasing) auto
  finally have fin: "\<not> \<bar>x\<bar> \<ge> 2 powi 128" by simp
  show ?thesis
    unfolding round32_def e_def [symmetric] Let_def y using fin by simp
qed

lemma round32_int: "\<bar>n\<bar> < 2 ^ 24 \<Longrightarrow> round32 (of_int n) = Fin (of_int n)"
  using round32_exact [of "of_int n" n 0] by simp

lemma f_of_int_exact: "\<bar>n\<bar> < 16777216 \<Longrightarrow> f_of_int n = Fin (of_int n)"
  unfolding f_of_int_def by (rule round32_int) simp

lemma round32_0: "round32 0 = Fin 0"
  using round32_int [of 0] by simp

lemma powf10_0: "powf10 0 = Fin 1"
  unfolding powf10_def using round32_int [of 1] by simp

lemma rnd_even_nonneg: "0 \<le> r \<Longrightarrow> 0 \<le> rnd_even r"
  by (auto simp add: rnd_even_def Let_def)

lemma round32_nonneg: "0 \<le> x \<Longrightarrow> (\<exists>v\<ge>0. round32 x = Fin v) \<or> round32 x = PInf"
proof -
  assume x: "0 \<le> x"
  define q :: real where "q = 2 powi (f32_exponent \<bar>x\<bar> - 23)"
  have q: "0 < q" by (simp add: q_def)
  define y where "y = of_int (rnd_even (x / q)) * q"
  have y: "0 \<le> y" unfolding y_def using x q by (intro mult_nonneg_nonneg) (auto intro: rnd_even_nonneg)
  have r: "round32 x = (if \<bar>y\<bar> \<ge> 2 powi 128 then (if x > 0 then PInf else NInf) else Fin y)"
    by (simp add: round32_def Let_def y_def q_def)
  show ?thesis
  proof (cases "x = 0")
    case True
    then show ?thesis by (simp add: round32_0)
  next
    case False
    with x have "0 < x" by simp
    then show ?thesis using y by (auto simp add: r)
  qed
qed

lemma f_of_int_u16: "f_of_int (uint w) = Fin (of_int (uint w))" for w :: u16
proof -
  have "uint w < 2 ^ LENGTH(16)" by (rule uint_bounded)
  moreover have "0 \<le> uint w" by simp
  ultimately show ?thesis by (intro f_of_int_exact) simp
qed

text \<open>
  Two computations that exact arithmetic gets wrong. The raw current 5 with the scale factor
  \<open>-2\<close> is a little less than 0.05 in single precision, and written back with the scale
  factor \<open>-2\<close> of the aggregate it is the register value 4. Six sources of 500 W at 240 V
  sum to a rated current a little less than 12.5 A.
\<close>

lemma powf10_minus_2: "powf10 (- 2) = Fin (5368709 / 536870912)"
  unfolding powf10_def using round32_eval [of "- 7" "10 powi (- 2)"]
  by (simp add: rnd_even_def Let_def power_int_minus)

lemma apply_sf_u16_5: "apply_sf_u16 5 (- 2) = Fin (3355443 / 67108864)"
  using round32_eval [of "- 5" "5 * (5368709 / 536870912)"]
  by (simp add: apply_sf_u16_def f_of_int_exact powf10_minus_2 rnd_even_def Let_def
      power_int_minus)

lemma current_5_written_back:
  "f2u16 ub (f_mul (apply_sf_u16 5 (- 2)) (Fin 100)) = 4"
  using round32_eval [of 2 "3355443 / 67108864 * 100"]
  by (simp add: apply_sf_u16_5 rnd_even_def Let_def power_int_minus f2u16_def f2int_def
      trunc_def)

lemma rated_current_500_240:
  "f_div (f_of_int 500) (f_of_int 240) = Fin (8738133 / 4194304)"
  using round32_eval [of 1 "500 / 240"]
  by (simp add: f_of_int_exact rnd_even_def Let_def power_int_minus)

section \<open>Verification: the frames of the power-limit forwarding\<close>

lemmas layout_defs =
  SUNSPEC_BASE_def MODEL_1_SIZE_def MODEL_103_SIZE_def MODEL_120_SIZE_def MODEL_123_SIZE_def
  INV_A_def INV_AphA_def INV_AphB_def INV_AphC_def INV_A_SF_def INV_PPVphAB_def
  INV_PPVphBC_def INV_PPVphCA_def INV_PhVphA_def INV_PhVphB_def INV_PhVphC_def INV_V_SF_def
  INV_W_def INV_W_SF_def INV_Hz_def INV_Hz_SF_def INV_VA_def INV_VA_SF_def INV_VAr_def
  INV_VAr_SF_def INV_PF_def INV_PF_SF_def INV_WH_def INV_WH_SF_def INV_DCA_SF_def
  INV_DCV_SF_def INV_DCW_def INV_DCW_SF_def INV_TmpCab_def INV_Tmp_SF_def INV_St_def
  INV_Evt1_def INV_Evt2_def INV_EvtVnd1_def INV_EvtVnd2_def INV_EvtVnd3_def INV_EvtVnd4_def
  OFF_SUNS_def OFF_MODEL1_def OFF_INV_def OFF_M120_def OFF_M123_def OFF_END_def TOTAL_REGS_def

lemmas hm_defs =
  HM_DATA_BASE_def HM_PORT_STRIDE_def HM_PORT_REGS_def HM_PV_VOLTAGE_def HM_PV_CURRENT_def
  HM_GRID_VOLTAGE_def HM_GRID_FREQ_def HM_PV_POWER_def HM_TODAY_PROD_H_def HM_TODAY_PROD_L_def
  HM_TOTAL_PROD_H_def HM_TOTAL_PROD_L_def HM_TEMPERATURE_def HM_OPERATING_STATUS_def
  HM_ALARM_CODE_def HM_LINK_STATUS_def

lemma nat_and_255: "(n::nat) AND 255 = n mod 256"
proof -
  have m: "(255::nat) = mask 8" by (simp add: mask_eq_exp_minus_1)
  have "n AND 255 = take_bit 8 n" unfolding m by (simp only: take_bit_eq_mask)
  then show ?thesis by (simp add: take_bit_eq_mod)
qed

lemma unat_and_255: "unat (w AND 255) = unat w mod 256" for w :: u16
  by (simp add: unsigned_and_eq nat_and_255)

lemma put_be16_of_nat:
  "n < 65536 \<Longrightarrow> put_be16 (of_nat n) = [of_nat (n div 256), of_nat (n mod 256)]"
  unfolding put_be16_def
  apply (simp add: word_eq_iff_unsigned[where ?'a=nat] unat_drop_bit_eq unat_of_nat unsigned_ucast_eq take_bit_eq_mod unat_and_255)
  apply (simp add: drop_bit_eq_div)
  done

lemma crc_bytes:
  "[ucast (crc AND 0xFF), ucast (drop_bit 8 crc)] = [of_nat (unat crc mod 256), of_nat (unat crc div 256) :: u8]" for crc :: u16
  apply (simp add: word_eq_iff_unsigned[where ?'a=nat] unat_drop_bit_eq unat_of_nat unsigned_ucast_eq take_bit_eq_mod unat_and_255)
  apply (simp add: drop_bit_eq_div)
  done

lemma limit_reg_nat: "(0xC007 + ucast p * 6 :: u16) = of_nat (0xC007 + 6 * unat p)" for p :: u8
  by (simp add: mult.commute)

lemma onoff_reg_nat: "(0xC006 + ucast p * 6 :: u16) = of_nat (0xC006 + 6 * unat p)" for p :: u8
  by (simp add: mult.commute)

lemma hm_pct_clamp:
  "(let a = uint pct div 10; b = (if a < 2 then 2 else a) in if b > 100 then 100 else b)
    = int (clamp (unat pct div 10) 2 100)" for pct :: u16
proof -
  have e: "int (unat pct div 10) = uint pct div 10" by (simp add: zdiv_int)
  show ?thesis unfolding e[symmetric] by (simp add: Let_def clamp_def max_def min_def)
qed

lemma put_be16_FF00: "put_be16 0xFF00 = [0xFF, 0]"
  by (simp add: put_be16_def)

lemma put_be16_100: "put_be16 100 = [0, 100]"
  by (simp add: put_be16_def)

lemma limit_frames_enabled:
  "limit_frames dtu pct True s =
     [rtu_write_frame dtu 0x06 (0xC007 + 6 * unat (port_number s)) (clamp (unat pct div 10) 2 100),
      rtu_write_frame dtu 0x05 (0xC006 + 6 * unat (port_number s)) 0xFF00]"
proof -
  have b7: "0xC007 + 6 * unat (port_number s) < 65536"
    using unsigned_less [of "port_number s", where ?'a = nat] by simp
  have b6: "0xC006 + 6 * unat (port_number s) < 65536"
    using unsigned_less [of "port_number s", where ?'a = nat] by simp
  have c: "clamp (unat pct div 10) 2 100 < 65536"
    by (simp add: clamp_def)
  have w: "(word_of_int (int (clamp (unat pct div 10) 2 100)) :: u16) = of_nat (clamp (unat pct div 10) 2 100)"
    by simp
  show ?thesis
    unfolding limit_frames_def rtu_write_frame_def
    using hm_pct_clamp [of pct]
    by (simp add: Let_def limit_reg_nat onoff_reg_nat put_be16_of_nat [OF b7] put_be16_of_nat [OF b6]
        put_be16_of_nat [OF c] put_be16_FF00 crc_bytes del: of_nat_add of_nat_mult)
qed

lemma limit_frames_disabled:
  "limit_frames dtu pct False s =
     [rtu_write_frame dtu 0x06 (0xC007 + 6 * unat (port_number s)) 100]"
proof -
  have b7: "0xC007 + 6 * unat (port_number s) < 65536"
    using unsigned_less [of "port_number s", where ?'a = nat] by simp
  show ?thesis
    unfolding limit_frames_def rtu_write_frame_def
    by (simp add: Let_def limit_reg_nat put_be16_of_nat [OF b7] put_be16_100 crc_bytes
        del: of_nat_add of_nat_mult)
qed

lemma forward_loop_enabled:
  "forward_loop dtu pct True ss =
     concat (map (\<lambda>s. [rtu_write_frame dtu 0x06 (0xC007 + 6 * unat (port_number s)) (clamp (unat pct div 10) 2 100),
      rtu_write_frame dtu 0x05 (0xC006 + 6 * unat (port_number s)) 0xFF00]) ss)"
  by (induction ss) (simp_all add: limit_frames_enabled)

lemma forward_loop_disabled:
  "forward_loop dtu pct False ss =
     map (\<lambda>s. rtu_write_frame dtu 0x06 (0xC007 + 6 * unat (port_number s)) 100) ss"
  by (induction ss) (simp_all add: limit_frames_disabled)

text \<open>
  Claim C4. With the limit enabled, \<^verbatim>\<open>forward_power_limit_\<close> writes for every source, in the
  order of the sources, one frame with function 0x06 to the DTU address at register
  \<open>0xC007 + 6 * port\<close> carrying \<open>clamp (pct_raw / 10) 2 100\<close>, then one frame with function 0x05 at
  register \<open>0xC006 + 6 * port\<close> carrying 0xFF00, and nothing else; disabled, it writes for every
  source one frame with function 0x06 at \<open>0xC007 + 6 * port\<close> carrying 100. The raw values 330,
  5 and 2000 give 33, 2 and 100.
\<close>

theorem forward_power_limit_frames:
  "uart_tx (forward_power_limit st pct True) =
     uart_tx st @ concat (map (\<lambda>s.
        [rtu_write_frame (dtu_address st) 0x06 (0xC007 + 6 * unat (port_number s)) (clamp (unat pct div 10) 2 100),
         rtu_write_frame (dtu_address st) 0x05 (0xC006 + 6 * unat (port_number s)) 0xFF00]) (sources st))
   \<and> uart_tx (forward_power_limit st pct False) =
     uart_tx st @ map (\<lambda>s. rtu_write_frame (dtu_address st) 0x06 (0xC007 + 6 * unat (port_number s)) 100) (sources st)
   \<and> clamp (unat (330 :: u16) div 10) 2 100 = 33
   \<and> clamp (unat (5 :: u16) div 10) 2 100 = 2
   \<and> clamp (unat (2000 :: u16) div 10) 2 100 = 100"
  by (simp add: forward_power_limit_def forward_loop_enabled forward_loop_disabled clamp_def)

section \<open>Verification: request counting and the unit-id filter\<close>

lemma write_sunspec_registers_counters:
  "tcp_request_count (snd (write_sunspec_registers st r c v)) = tcp_request_count st
   \<and> last_tcp_activity_ms (snd (write_sunspec_registers st r c v)) = last_tcp_activity_ms st"
  by (simp add: write_sunspec_registers_def Let_def forward_power_limit_def)

lemma send_counters:
  "tcp_request_count (send_tcp_response st fd t u f d) = tcp_request_count st"
  "last_tcp_activity_ms (send_tcp_response st fd t u f d) = last_tcp_activity_ms st"
  "tcp_request_count (send_tcp_error st fd t u f e) = tcp_request_count st"
  "last_tcp_activity_ms (send_tcp_error st fd t u f e) = last_tcp_activity_ms st"
  "tcp_request_count (bump_tcp_error st) = tcp_request_count st"
  "last_tcp_activity_ms (bump_tcp_error st) = last_tcp_activity_ms st"
  by (simp_all add: send_tcp_response_def send_tcp_error_def bump_tcp_error_def)

lemma handle_read_holding_counters:
  "tcp_request_count (handle_read_holding st fd t u f buf) = tcp_request_count st
   \<and> last_tcp_activity_ms (handle_read_holding st fd t u f buf) = last_tcp_activity_ms st"
  by (simp add: handle_read_holding_def Let_def send_counters split: option.splits)

lemma handle_write_single_counters:
  "tcp_request_count (handle_write_single st fd t u f buf) = tcp_request_count st
   \<and> last_tcp_activity_ms (handle_write_single st fd t u f buf) = last_tcp_activity_ms st"
proof (cases "write_sunspec_registers st (be16 (buf ! 8) (buf ! 9)) 1 [be16 (buf ! 10) (buf ! 11)]")
  case (Pair ok st1)
  with write_sunspec_registers_counters
         [of st "be16 (buf ! 8) (buf ! 9)" 1 "[be16 (buf ! 10) (buf ! 11)]"]
  show ?thesis
    by (cases ok) (simp_all add: handle_write_single_def Let_def send_counters)
qed

lemma handle_write_multiple_counters:
  "tcp_request_count (handle_write_multiple st fd t u f buf) = tcp_request_count st
   \<and> last_tcp_activity_ms (handle_write_multiple st fd t u f buf) = last_tcp_activity_ms st"
proof (cases "write_sunspec_registers st (be16 (buf ! 8) (buf ! 9)) (be16 (buf ! 10) (buf ! 11))
                (map (\<lambda>i. be16 (buf ! (13 + i * 2)) (buf ! (13 + i * 2 + 1)))
                     [0 ..< unat (be16 (buf ! 10) (buf ! 11))])")
  case (Pair ok st1)
  with write_sunspec_registers_counters
         [of st "be16 (buf ! 8) (buf ! 9)" "be16 (buf ! 10) (buf ! 11)"
             "map (\<lambda>i. be16 (buf ! (13 + i * 2)) (buf ! (13 + i * 2 + 1)))
                     [0 ..< unat (be16 (buf ! 10) (buf ! 11))]"]
  show ?thesis
    by (cases ok) (simp_all add: handle_write_multiple_def Let_def send_counters)
qed

text \<open>
  Claim C10. A buffer of at least 8 bytes whose protocol field is 0 increments
  \<^verbatim>\<open>tcp_request_count_\<close> and sets \<^verbatim>\<open>last_tcp_activity_ms_\<close> to the current time, whatever its
  unit id and whatever happens to the request afterwards; a shorter buffer or one with another
  protocol field leaves both as they were.
\<close>

theorem tcp_request_counted:
  "(8 \<le> length buf \<and> be16 (buf ! 2) (buf ! 3) = 0 \<longrightarrow>
      tcp_request_count (process_tcp_request st now fd buf) = tcp_request_count st + 1
      \<and> last_tcp_activity_ms (process_tcp_request st now fd buf) = now)
   \<and> (length buf < 8 \<or> be16 (buf ! 2) (buf ! 3) \<noteq> 0 \<longrightarrow>
      tcp_request_count (process_tcp_request st now fd buf) = tcp_request_count st
      \<and> last_tcp_activity_ms (process_tcp_request st now fd buf) = last_tcp_activity_ms st)"
  by (simp add: process_tcp_request_def Let_def send_counters handle_read_holding_counters
      handle_write_single_counters handle_write_multiple_counters)

theorem tcp_request_counted_witness:
  "tcp_request_count (process_tcp_request proxy_init 1234 1 [0, 1, 0, 0, 0, 6, 5, 3, 0x9C, 0x40, 0, 1]) = 1
   \<and> last_tcp_activity_ms (process_tcp_request proxy_init 1234 1 [0, 1, 0, 0, 0, 6, 5, 3, 0x9C, 0x40, 0, 1]) = 1234
   \<and> tcp_tx (process_tcp_request proxy_init 1234 1 [0, 1, 0, 0, 0, 6, 5, 3, 0x9C, 0x40, 0, 1]) = []
   \<and> tcp_request_count (process_tcp_request proxy_init 1234 1 [0, 1, 0, 7, 0, 6, 5, 3, 0x9C, 0x40, 0, 1]) = 0
   \<and> last_tcp_activity_ms (process_tcp_request proxy_init 1234 1 [0, 1, 0, 7, 0, 6, 5, 3, 0x9C, 0x40, 0, 1]) = 0"
  using tcp_request_counted [of "[0, 1, 0, 0, 0, 6, 5, 3, 0x9C, 0x40, 0, 1]" proxy_init 1234 1]
        tcp_request_counted [of "[0, 1, 0, 7, 0, 6, 5, 3, 0x9C, 0x40, 0, 1]" proxy_init 1234 1]
  by (simp add: be16_def proxy_init_def process_tcp_request_def)

text \<open>
  Claim C9. A request whose unit id is not the configured one puts nothing on the socket:
  no response and no exception. It writes nothing to the UART and leaves the image alone.
\<close>

theorem unit_id_filter:
  "buf ! 6 \<noteq> unit_id (agg_config st) \<Longrightarrow>
     tcp_tx (process_tcp_request st now fd buf) = tcp_tx st
     \<and> uart_tx (process_tcp_request st now fd buf) = uart_tx st
     \<and> register_map (process_tcp_request st now fd buf) = register_map st"
  by (simp add: process_tcp_request_def Let_def)

theorem unit_id_filter_witness:
  "[0, 1, 0, 0, 0, 6, 5, 3, 0x9C, 0x40, 0, 1] ! 6 \<noteq> unit_id (agg_config proxy_init)
   \<and> tcp_tx (process_tcp_request proxy_init 7 1 [0, 1, 0, 0, 0, 6, 5, 3, 0x9C, 0x40, 0, 1]) = []"
  using unit_id_filter [of "[0, 1, 0, 0, 0, 6, 5, 3, 0x9C, 0x40, 0, 1]" proxy_init 7 1]
  by (simp add: proxy_init_def)

section \<open>Verification: reading holding registers\<close>

lemma put_be16_0: "put_be16 0 = [0, 0]"
  by (simp add: put_be16_def)

lemma tcp_tx_response:
  "tcp_tx (send_tcp_response st fd txn unit fc data) = tcp_tx st @ [(fd, mbap_frame txn unit fc data)]"
  by (simp add: send_tcp_response_def mbap_frame_def put_be16_0 add.commute)

lemma tcp_tx_error:
  "tcp_tx (bump_tcp_error (send_tcp_error st fd txn unit fc err)) =
     tcp_tx st @ [(fd, mbap_frame txn unit (fc OR 0x80) [err])]"
  by (simp add: send_tcp_error_def bump_tcp_error_def tcp_tx_response)

lemma take_drop_nth:
  "k + n \<le> length xs \<Longrightarrow> take n (drop k xs) = map (\<lambda>i. xs ! (k + i)) [0 ..< n]"
  by (simp add: list_eq_iff_nth_eq)

lemma read_sunspec_registers_eq:
  assumes "length (register_map st) = TOTAL_REGS"
  shows "read_sunspec_registers st start count =
     (if unat start < 40000 \<or> unat start - 40000 + unat count > 178 then None
      else Some (map (\<lambda>i. register_map st ! (unat start - 40000 + i)) [0 ..< unat count]))"
proof (cases "start < SUNSPEC_BASE")
  case True
  then show ?thesis
    by (simp add: read_sunspec_registers_def SUNSPEC_BASE_def word_less_nat_alt)
next
  case False
  then have ge: "40000 \<le> unat start"
    by (simp add: SUNSPEC_BASE_def word_less_nat_alt)
  then have off: "unat (start - SUNSPEC_BASE) = unat start - 40000"
    by (simp add: SUNSPEC_BASE_def unat_sub word_le_nat_alt)
  show ?thesis
    using False ge assms
    by (simp add: read_sunspec_registers_def Let_def off TOTAL_REGS_def take_drop_nth)
qed

lemma byte_count_cast:
  "c \<le> 125 \<Longrightarrow> (ucast (c * 2) :: u8) = of_nat (2 * unat c)" for c :: u16
proof -
  assume "c \<le> 125"
  then have "unat c \<le> 125" by (simp add: word_le_nat_alt)
  then have "unat (c * 2) = 2 * unat c" by (simp add: unat_word_ariths)
  then show ?thesis by (metis of_nat_unat)
qed

text \<open>
  Claim C2. A Read Holding Registers request (at least 12 bytes, protocol 0, function 0x03) for
  the configured unit id is answered by exactly one frame: the exception 0x03 when the count
  exceeds 125; else the exception 0x02 when the start is below 40000 or
  \<open>start - 40000 + count\<close> exceeds 178; else the byte count followed by the words
  \<open>image[start - 40000 .. start - 40000 + count - 1]\<close>, high byte first.
\<close>

theorem read_holding_registers_response:
  assumes "length (register_map st) = TOTAL_REGS"
      and "12 \<le> length buf"
      and "be16 (buf ! 2) (buf ! 3) = 0"
      and "buf ! 6 = unit_id (agg_config st)"
      and "buf ! 7 = 0x03"
  shows "tcp_tx (process_tcp_request st now fd buf) = tcp_tx st @ [(fd,
           (let txn = be16 (buf ! 0) (buf ! 1);
                start = unat (be16 (buf ! 8) (buf ! 9));
                count = unat (be16 (buf ! 10) (buf ! 11))
            in if count > 125 then mbap_frame txn (buf ! 6) 0x83 [0x03]
               else if start < 40000 \<or> start - 40000 + count > 178
                    then mbap_frame txn (buf ! 6) 0x83 [0x02]
                    else mbap_frame txn (buf ! 6) 0x03
                           (of_nat (2 * count) #
                            concat (map (\<lambda>i. put_be16 (register_map st ! (start - 40000 + i)))
                                        [0 ..< count]))))]"
proof -
  let ?st1 = "st\<lparr>last_tcp_activity_ms := now, tcp_request_count := tcp_request_count st + 1\<rparr>"
  have p: "process_tcp_request st now fd buf =
             handle_read_holding ?st1 fd (be16 (buf ! 0) (buf ! 1)) (buf ! 6) 0x03 buf"
    using assms by (simp add: process_tcp_request_def Let_def)
  have len: "length (register_map ?st1) = TOTAL_REGS" using assms by simp
  show ?thesis
  proof (cases "be16 (buf ! 10) (buf ! 11) > 125")
    case True
    then have "unat (be16 (buf ! 10) (buf ! 11)) > 125" by (simp add: word_less_nat_alt)
    with True assms show ?thesis
      by (simp add: p handle_read_holding_def Let_def tcp_tx_error)
  next
    case False
    then have c: "be16 (buf ! 10) (buf ! 11) \<le> 125" by simp
    then have n: "\<not> unat (be16 (buf ! 10) (buf ! 11)) > 125" by (simp add: word_le_nat_alt)
    show ?thesis
      using False n assms(2)
      by (simp add: p handle_read_holding_def Let_def tcp_tx_error tcp_tx_response
          read_sunspec_registers_eq [OF len] byte_count_cast [OF c] map_concat comp_def)
  qed
qed

section \<open>Verification: the image after start-up\<close>

lemma all_less_numeral:
  "(\<forall>i<numeral k. P i) = (P (pred_numeral k) \<and> (\<forall>i<pred_numeral k. P i))"
  by (simp add: numeral_eq_Suc less_Suc_eq) blast

lemma all_less_one: "(\<forall>i<Suc 0. P i) = P 0"
  by simp

lemma length_store_regs: "length (store_regs m off vs) = length m"
  by (induction vs arbitrary: m off) simp_all

lemma store_regs_nth_out:
  "j < off \<or> off + length vs \<le> j \<Longrightarrow> store_regs m off vs ! j = m ! j"
  by (induction vs arbitrary: m off) auto

lemma store_regs_nth_in:
  "off \<le> j \<Longrightarrow> j < off + length vs \<Longrightarrow> off + length vs \<le> length m \<Longrightarrow>
     store_regs m off vs ! j = vs ! (j - off)"
proof (induction vs arbitrary: m off)
  case Nil
  then show ?case by simp
next
  case (Cons v vs)
  show ?case
  proof (cases "j = off")
    case True
    with Cons.prems show ?thesis
      by (simp add: store_regs_nth_out)
  next
    case False
    with Cons.prems have "store_regs (m[off := v]) (Suc off) vs ! j = vs ! (j - Suc off)"
      by (intro Cons.IH) simp_all
    with False Cons.prems show ?thesis
      by (simp add: nth_Cons')
  qed
qed

lemma version_regs: "write_string_regs version_string 8 = [0x312E, 0x312E, 0x3000, 0, 0, 0, 0, 0]"
  by code_simp

lemma length_write_chars: "length (write_chars regs i cs) = length regs"
  by (induction cs arbitrary: regs i) simp_all

lemma length_write_string_regs: "length (write_string_regs str n) = n"
  by (simp add: write_string_regs_def length_write_chars)

lemma static_image:
  "register_map (build_static_registers ub st) =
     [0x5375, 0x6e53, 1, 66]
     @ write_string_regs (manufacturer (agg_config st)) 16
     @ write_string_regs (model_name (agg_config st)) 16
     @ replicate 8 0
     @ [0x312E, 0x312E, 0x3000, 0, 0, 0, 0, 0]
     @ write_string_regs (agg_serial_number (agg_config st)) 16
     @ [ucast (unit_id (agg_config st)), 0x8000]
     @ [if agg_phases (agg_config st) = 3 then 103 else 101, 50]
     @ inverter_block_init
     @ [120, 26]
     @ [4, agg_rated_power_w (agg_config st), 0, agg_rated_power_w (agg_config st), 0,
        0xFFFF, 0xFFFF, 0xFFFF, 0xFFFF, 0xFFFF,
        f2u16 ub (f_mul (rated_current_a (agg_config st)) (Fin 10)), - 1]
     @ replicate 14 0xFFFF
     @ [123, 24]
     @ [0xFFFF, 0xFFFF, 1, - 1, 0xFFFF, 1000, 0xFFFF, 0xFFFF, 0]
     @ replicate 15 0xFFFF
     @ [0xFFFF, 0]"
  (is "_ = ?rhs")
proof (rule nth_equalityI)
  show len: "length (register_map (build_static_registers ub st)) = length ?rhs"
    by (simp add: build_static_registers_def Let_def layout_defs length_store_regs
        length_write_string_regs inverter_block_init_def)
  have "\<forall>i<178. register_map (build_static_registers ub st) ! i = ?rhs ! i"
    unfolding build_static_registers_def Let_def layout_defs version_regs
    by (simp add: all_less_numeral all_less_one nth_append store_regs_nth_out store_regs_nth_in
        length_store_regs length_write_string_regs inverter_block_init_def)
  then show "register_map (build_static_registers ub st) ! i = ?rhs ! i"
    if "i < length (register_map (build_static_registers ub st))" for i
    using that len by (simp add: length_write_string_regs inverter_block_init_def)
qed

lemma fold_add_rating:
  "fold add_rating ss c =
     c\<lparr>agg_rated_power_w := agg_rated_power_w c + of_nat (sum_list (map (\<lambda>s. unat (rated_power_w s)) ss)),
       rated_current_a := rated_current_a (fold add_rating ss c)\<rparr>"
proof (induction ss arbitrary: c)
  case Nil
  show ?case by simp
next
  case (Cons s ss)
  have "fold add_rating (s # ss) c = fold add_rating ss (add_rating s c)"
    by simp
  also have "\<dots> = (add_rating s c)\<lparr>agg_rated_power_w := agg_rated_power_w (add_rating s c)
          + of_nat (sum_list (map (\<lambda>s. unat (rated_power_w s)) ss)),
       rated_current_a := rated_current_a (fold add_rating ss (add_rating s c))\<rparr>"
    by (rule Cons.IH)
  also have "\<dots> = c\<lparr>agg_rated_power_w := agg_rated_power_w c
          + of_nat (sum_list (map (\<lambda>s. unat (rated_power_w s)) (s # ss))),
       rated_current_a := rated_current_a (fold add_rating (s # ss) c)\<rparr>"
    by (simp add: add_rating_def Let_def algebra_simps)
  finally show ?case .
qed

lemma setup_config:
  "agg_config (proxy_setup ub st) =
     (agg_config st)\<lparr>agg_rated_power_w := of_nat (rated_sum st),
       rated_current_a := rated_current_a (agg_config (proxy_setup ub st))\<rparr>"
proof -
  let ?c0 = "(agg_config st)\<lparr>agg_rated_power_w := 0, rated_current_a := Fin 0\<rparr>"
  have "agg_config (proxy_setup ub st) = fold add_rating (sources st) ?c0"
    by (simp add: proxy_setup_def Let_def build_static_registers_def)
  then show ?thesis
    by (subst (asm) fold_add_rating) (simp add: rated_sum_def)
qed

lemma setup_config_fields:
  "manufacturer (agg_config (proxy_setup ub st)) = manufacturer (agg_config st)"
  "model_name (agg_config (proxy_setup ub st)) = model_name (agg_config st)"
  "agg_serial_number (agg_config (proxy_setup ub st)) = agg_serial_number (agg_config st)"
  "unit_id (agg_config (proxy_setup ub st)) = unit_id (agg_config st)"
  "agg_phases (agg_config (proxy_setup ub st)) = agg_phases (agg_config st)"
  "rated_voltage_v (agg_config (proxy_setup ub st)) = rated_voltage_v (agg_config st)"
  "agg_rated_power_w (agg_config (proxy_setup ub st)) = of_nat (rated_sum st)"
  by (subst setup_config, simp)+

lemma setup_image:
  "register_map (proxy_setup ub st) =
     register_map (build_static_registers ub (st\<lparr>agg_config := agg_config (proxy_setup ub st)\<rparr>))"
  by (simp add: proxy_setup_def Let_def build_static_registers_def)

text \<open>
  The rated current is a sum of quotients that are not negative, so it is not negative (or the
  infinity), and so is ten times it.
\<close>

lemma add_rating_nonneg:
  assumes "(\<exists>v\<ge>0. rated_current_a c = Fin v) \<or> rated_current_a c = PInf"
  shows "(\<exists>v\<ge>0. rated_current_a (add_rating s c) = Fin v) \<or> rated_current_a (add_rating s c) = PInf"
proof (cases "rated_voltage_v c > 0")
  case False
  with assms show ?thesis by (simp add: add_rating_def Let_def)
next
  case True
  then have pos: "0 < uint (rated_voltage_v c)"
    by (simp add: word_less_def)
  have nn: "0 \<le> real_of_int (uint (rated_power_w s)) / real_of_int (uint (rated_voltage_v c))"
    by (intro divide_nonneg_nonneg) (simp_all del: of_int_uint)
  have nz: "real_of_int (uint (rated_voltage_v c)) \<noteq> 0"
    using pos by (simp del: of_int_uint)
  have "f_div (f_of_int (uint (rated_power_w s))) (f_of_int (uint (rated_voltage_v c)))
          = round32 (real_of_int (uint (rated_power_w s)) / real_of_int (uint (rated_voltage_v c)))"
    unfolding f_of_int_u16 using nz by (simp del: of_int_uint)
  with round32_nonneg [OF nn]
  have q: "(\<exists>v\<ge>0. f_div (f_of_int (uint (rated_power_w s))) (f_of_int (uint (rated_voltage_v c))) = Fin v)
         \<or> f_div (f_of_int (uint (rated_power_w s))) (f_of_int (uint (rated_voltage_v c))) = PInf"
    by simp
  have "(\<exists>v\<ge>0. f_add x y = Fin v) \<or> f_add x y = PInf"
    if "(\<exists>v\<ge>0. x = Fin v) \<or> x = PInf" and "(\<exists>v\<ge>0. y = Fin v) \<or> y = PInf" for x y
    using that round32_nonneg by (cases x; cases y) auto
  from this [OF assms q] True show ?thesis
    by (simp add: add_rating_def Let_def)
qed

lemma fold_add_rating_nonneg:
  "(\<exists>v\<ge>0. rated_current_a c = Fin v) \<or> rated_current_a c = PInf \<Longrightarrow>
     (\<exists>v\<ge>0. rated_current_a (fold add_rating ss c) = Fin v)
     \<or> rated_current_a (fold add_rating ss c) = PInf"
proof (induction ss arbitrary: c)
  case Nil
  then show ?case by simp
next
  case (Cons s ss)
  from Cons.IH [OF add_rating_nonneg [OF Cons.prems]] show ?case by simp
qed

lemma setup_rated_current_nonneg:
  "f_mul (rated_current_a (agg_config (proxy_setup ub st))) (Fin 10) = Fin v \<Longrightarrow> 0 \<le> v"
proof -
  assume m: "f_mul (rated_current_a (agg_config (proxy_setup ub st))) (Fin 10) = Fin v"
  let ?c0 = "(agg_config st)\<lparr>agg_rated_power_w := 0, rated_current_a := Fin 0\<rparr>"
  have c: "agg_config (proxy_setup ub st) = fold add_rating (sources st) ?c0"
    by (simp add: proxy_setup_def Let_def build_static_registers_def)
  have "(\<exists>v\<ge>0. rated_current_a ?c0 = Fin v) \<or> rated_current_a ?c0 = PInf"
    by simp
  from fold_add_rating_nonneg [OF this, of "sources st"]
  consider w where "0 \<le> w" "rated_current_a (agg_config (proxy_setup ub st)) = Fin w"
    | "rated_current_a (agg_config (proxy_setup ub st)) = PInf"
    unfolding c by blast
  then show ?thesis
  proof cases
    case 1
    then have "0 \<le> w * 10" by simp
    from round32_nonneg [OF this] m 1 show ?thesis by auto
  next
    case 2
    with m show ?thesis by simp
  qed
qed

lemma trunc_nonneg: "0 \<le> x \<Longrightarrow> trunc x = \<lfloor>x\<rfloor>"
  by (simp add: trunc_def)

lemma f2u16_in_range: "0 \<le> v \<Longrightarrow> v < 65536 \<Longrightarrow> f2u16 ub (Fin v) = word_of_int \<lfloor>v\<rfloor>"
  by (simp add: f2u16_def f2int_def trunc_nonneg floor_less_iff)

lemma setup_register_image:
  assumes "f_mul (rated_current_a (agg_config (proxy_setup ub st))) (Fin 10) = Fin v"
      and "v < 65536"
  shows "register_map (proxy_setup ub st) =
     [0x5375, 0x6e53, 1, 66]
     @ write_string_regs (manufacturer (agg_config st)) 16
     @ write_string_regs (model_name (agg_config st)) 16
     @ replicate 8 0
     @ [0x312E, 0x312E, 0x3000, 0, 0, 0, 0, 0]
     @ write_string_regs (agg_serial_number (agg_config st)) 16
     @ [ucast (unit_id (agg_config st)), 0x8000]
     @ [if agg_phases (agg_config st) = 3 then 103 else 101, 50]
     @ inverter_block_init
     @ [120, 26]
     @ [4, of_nat (rated_sum st), 0, of_nat (rated_sum st), 0,
        0xFFFF, 0xFFFF, 0xFFFF, 0xFFFF, 0xFFFF,
        word_of_int \<lfloor>v\<rfloor>, - 1]
     @ replicate 14 0xFFFF
     @ [123, 24]
     @ [0xFFFF, 0xFFFF, 1, - 1, 0xFFFF, 1000, 0xFFFF, 0xFFFF, 0]
     @ replicate 15 0xFFFF
     @ [0xFFFF, 0]"
proof -
  have "0 \<le> v" using assms(1) by (rule setup_rated_current_nonneg)
  then have "f2u16 ub (Fin v) = word_of_int \<lfloor>v\<rfloor>"
    using assms(2) by (rule f2u16_in_range)
  then show ?thesis
    by (simp add: setup_image static_image setup_config_fields assms(1))
qed

text \<open>
  Claim C8, amended. After start-up the image is exactly the list below: the SunS signature;
  the Common block (1, length 66) with its strings; the inverter header (101 or 103, length
  50) and the payload \<open>inverter_block_init\<close> with the scale factors \<open>A_SF = -2\<close>,
  \<open>V_SF = -1\<close>, \<open>W_SF = 0\<close>, \<open>Hz_SF = -2\<close>, \<open>VA_SF = 0\<close>, \<open>VAr_SF = 0\<close>, \<open>PF_SF = -2\<close>,
  \<open>WH_SF = 0\<close>, \<open>DCA_SF = -2\<close>, \<open>DCV_SF = -1\<close>, \<open>DCW_SF = 0\<close>, \<open>Tmp_SF = -1\<close>; the
  nameplate (120, length 26) with \<open>DERTyp = 4\<close>, \<open>WRtg = VARtg =\<close> the summed rated power,
  their scale factors 0 and \<open>ARtg_SF = -1\<close>; the controls (123, length 24); and the end
  marker 0xFFFF, 0. \<open>ARtg\<close> is the single-precision product \<open>rated_current_a * 10\<close> with its
  fraction cut off, not rounded, when that product is finite and below 65536.
\<close>

theorem static_register_image:
  assumes "f_mul (rated_current_a (agg_config (proxy_setup ub st))) (Fin 10) = Fin v"
      and "v < 65536"
  shows "register_map (proxy_setup ub st) =
     [0x5375, 0x6e53, 1, 66]
     @ write_string_regs (manufacturer (agg_config st)) 16
     @ write_string_regs (model_name (agg_config st)) 16
     @ replicate 8 0
     @ [0x312E, 0x312E, 0x3000, 0, 0, 0, 0, 0]
     @ write_string_regs (agg_serial_number (agg_config st)) 16
     @ [ucast (unit_id (agg_config st)), 0x8000]
     @ [if agg_phases (agg_config st) = 3 then 103 else 101, 50]
     @ inverter_block_init
     @ [120, 26]
     @ [4, of_nat (rated_sum st), 0, of_nat (rated_sum st), 0,
        0xFFFF, 0xFFFF, 0xFFFF, 0xFFFF, 0xFFFF,
        word_of_int \<lfloor>v\<rfloor>, - 1]
     @ replicate 14 0xFFFF
     @ [123, 24]
     @ [0xFFFF, 0xFFFF, 1, - 1, 0xFFFF, 1000, 0xFFFF, 0xFFFF, 0]
     @ replicate 15 0xFFFF
     @ [0xFFFF, 0]"
  using assms by (rule setup_register_image)

lemma round32_15_8: "round32 (15 / 8) = Fin (15 / 8)"
  using round32_exact [of "15 / 8" 15 "- 3"] by (simp add: power_int_minus)

lemma round32_75_4: "round32 (75 / 4) = Fin (75 / 4)"
  using round32_exact [of "75 / 4" 75 "- 2"] by (simp add: power_int_minus)

lemma example_rated_current: "rated_current_a (agg_config example_proxy) = Fin (15 / 8)"
  by (simp add: example_proxy_def proxy_setup_def Let_def build_static_registers_def
      example_config_def add_rtu_source_def proxy_init_def MAX_RTU_SOURCES_def add_rating_def
      f_of_int_exact round32_15_8)

lemma example_rated_product:
  "f_mul (rated_current_a (agg_config example_proxy)) (Fin 10) = Fin (75 / 4)"
  by (simp add: example_rated_current round32_75_4)

theorem static_register_image_witness:
  "f_mul (rated_current_a (agg_config (proxy_setup (\<lambda>x. 0) example_config))) (Fin 10) = Fin (75 / 4)
   \<and> (75 / 4 :: real) < 65536
   \<and> register_map (proxy_setup (\<lambda>x. 0) example_config) =
     [0x5375, 0x6e53, 1, 66]
     @ write_string_regs (manufacturer (agg_config example_config)) 16
     @ write_string_regs (model_name (agg_config example_config)) 16
     @ replicate 8 0
     @ [0x312E, 0x312E, 0x3000, 0, 0, 0, 0, 0]
     @ write_string_regs (agg_serial_number (agg_config example_config)) 16
     @ [ucast (unit_id (agg_config example_config)), 0x8000]
     @ [if agg_phases (agg_config example_config) = 3 then 103 else 101, 50]
     @ inverter_block_init
     @ [120, 26]
     @ [4, of_nat (rated_sum example_config), 0, of_nat (rated_sum example_config), 0,
        0xFFFF, 0xFFFF, 0xFFFF, 0xFFFF, 0xFFFF,
        18, - 1]
     @ replicate 14 0xFFFF
     @ [123, 24]
     @ [0xFFFF, 0xFFFF, 1, - 1, 0xFFFF, 1000, 0xFFFF, 0xFFFF, 0]
     @ replicate 15 0xFFFF
     @ [0xFFFF, 0]"
proof -
  have p: "f_mul (rated_current_a (agg_config (proxy_setup (\<lambda>x. 0) example_config))) (Fin 10)
             = Fin (75 / 4)"
    using example_rated_product by (simp add: example_proxy_def)
  have "(75 / 4 :: real) < 65536" by simp
  from static_register_image [OF p this] p show ?thesis
    by (simp add: example_config_def add_rtu_source_def proxy_init_def MAX_RTU_SOURCES_def
        rated_sum_def write_string_regs_def)
qed

text \<open>
  Counterexample to claim C8 as stated: with 450 W at 240 V the rated current is 1.875 A, ten
  times that is 18.75 (both exact in single precision), the register holds 18 and rounding
  would give 19.
\<close>

theorem static_register_image_round_counterexample:
  "rated_current_a (agg_config example_proxy) = Fin (15 / 8)
   \<and> round (15 / 8 * 10 :: real) = 19
   \<and> unat (register_map example_proxy ! 134) = 18"
proof -
  have "(75 / 4 :: real) < 65536" by simp
  from setup_register_image [OF example_rated_product [unfolded example_proxy_def] this]
  have "register_map example_proxy ! 134 = word_of_int \<lfloor>75 / 4 :: real\<rfloor>"
    unfolding example_proxy_def
    by (simp add: nth_append length_write_string_regs inverter_block_init_def)
  then show ?thesis
    by (simp add: example_rated_current round_def)
qed

text \<open>
  The sum is rounded at every source: six sources of 500 W at 240 V give the rated current
  13107199 / 1048576, a little less than 12.5 A, and \<open>ARtg = 124\<close>, where the exact sum
  12.5 A would give 125.
\<close>

lemma six_sources_rated_current:
  assumes "rated_power_w s = 500" and "rated_voltage_v c = 240" and "rated_current_a c = Fin 0"
  shows "rated_current_a (fold add_rating (replicate 6 s) c) = Fin (13107199 / 1048576)"
    and "f2u16 ub (f_mul (rated_current_a (fold add_rating (replicate 6 s) c)) (Fin 10)) = 124"
proof -
  have q: "f_div (f_of_int (uint (rated_power_w s))) (f_of_int (uint (rated_voltage_v c)))
             = Fin (8738133 / 4194304)"
    using rated_current_500_240 by (simp add: assms)
  have s: "rated_current_a (add_rating s d) = f_add (rated_current_a d) (Fin (8738133 / 4194304))"
      "rated_voltage_v (add_rating s d) = 240"
    if "rated_voltage_v d = 240" for d
    using q that by (simp_all add: add_rating_def Let_def assms)
  have a1: "f_add (Fin 0) (Fin (8738133 / 4194304)) = Fin (8738133 / 4194304)"
    using round32_exact [of "8738133 / 4194304" 8738133 "- 22"] by (simp add: power_int_minus)
  have a2: "f_add (Fin (8738133 / 4194304)) (Fin (8738133 / 4194304)) = Fin (8738133 / 2097152)"
    using round32_exact [of "8738133 / 2097152" 8738133 "- 21"] by (simp add: power_int_minus)
  have a3: "f_add (Fin (8738133 / 2097152)) (Fin (8738133 / 4194304)) = Fin (25 / 4)"
    using round32_eval [of 2 "8738133 / 2097152 + 8738133 / 4194304"]
    by (simp add: rnd_even_def Let_def power_int_minus)
  have a4: "f_add (Fin (25 / 4)) (Fin (8738133 / 4194304)) = Fin (8738133 / 1048576)"
    using round32_eval [of 3 "25 / 4 + 8738133 / 4194304"]
    by (simp add: rnd_even_def Let_def power_int_minus)
  have a5: "f_add (Fin (8738133 / 1048576)) (Fin (8738133 / 4194304)) = Fin (5461333 / 524288)"
    using round32_eval [of 3 "8738133 / 1048576 + 8738133 / 4194304"]
    by (simp add: rnd_even_def Let_def power_int_minus)
  have a6: "f_add (Fin (5461333 / 524288)) (Fin (8738133 / 4194304)) = Fin (13107199 / 1048576)"
    using round32_eval [of 3 "5461333 / 524288 + 8738133 / 4194304"]
    by (simp add: rnd_even_def Let_def power_int_minus)
  have six: "replicate 6 s = [s, s, s, s, s, s]"
    by (simp add: numeral_eq_Suc)
  show c: "rated_current_a (fold add_rating (replicate 6 s) c) = Fin (13107199 / 1048576)"
    unfolding six by (simp add: s assms a1 a2 a3 a4 a5 a6 del: f_add.simps)
  have "round32 (13107199 / 1048576 * 10) = Fin (16383999 / 131072)"
    using round32_eval [of 6 "13107199 / 1048576 * 10"]
    by (simp add: rnd_even_def Let_def power_int_minus)
  then show "f2u16 ub (f_mul (rated_current_a (fold add_rating (replicate 6 s) c)) (Fin 10)) = 124"
    unfolding c by (simp add: f2u16_def f2int_def trunc_def)
qed

section \<open>Verification: facts of the example\<close>

lemma example_unit_id: "unit_id (agg_config example_proxy) = 126"
  by (simp add: example_proxy_def setup_config_fields example_config_def add_rtu_source_def
      proxy_init_def MAX_RTU_SOURCES_def)

lemma example_image:
  "register_map example_proxy =
     [0x5375, 0x6e53, 1, 66]
     @ write_string_regs (manufacturer (agg_config example_config)) 16
     @ write_string_regs (model_name (agg_config example_config)) 16
     @ replicate 8 0
     @ [0x312E, 0x312E, 0x3000, 0, 0, 0, 0, 0]
     @ write_string_regs (agg_serial_number (agg_config example_config)) 16
     @ [ucast (unit_id (agg_config example_config)), 0x8000]
     @ [if agg_phases (agg_config example_config) = 3 then 103 else 101, 50]
     @ inverter_block_init
     @ [120, 26]
     @ [4, of_nat (rated_sum example_config), 0, of_nat (rated_sum example_config), 0,
        0xFFFF, 0xFFFF, 0xFFFF, 0xFFFF, 0xFFFF,
        word_of_int \<lfloor>75 / 4 :: real\<rfloor>, - 1]
     @ replicate 14 0xFFFF
     @ [123, 24]
     @ [0xFFFF, 0xFFFF, 1, - 1, 0xFFFF, 1000, 0xFFFF, 0xFFFF, 0]
     @ replicate 15 0xFFFF
     @ [0xFFFF, 0]"
proof -
  have "(75 / 4 :: real) < 65536" by simp
  from setup_register_image [OF example_rated_product [unfolded example_proxy_def] this]
  show ?thesis unfolding example_proxy_def .
qed

lemma example_length: "length (register_map example_proxy) = TOTAL_REGS"
  unfolding example_image
  by (simp add: length_write_string_regs inverter_block_init_def TOTAL_REGS_def)

lemma example_signature:
  "register_map example_proxy ! 0 = 0x5375" "register_map example_proxy ! Suc 0 = 0x6e53"
  unfolding example_image
  by simp_all

lemma example_controls:
  "register_map example_proxy ! 157 = 1000" "register_map example_proxy ! 160 = 0"
  unfolding example_image
  by (simp_all add: nth_append length_write_string_regs inverter_block_init_def)

lemma example_plain:
  "tcp_tx example_proxy = []" "uart_tx example_proxy = []" "rtu_busy example_proxy = False"
  "dtu_address example_proxy = 126" "tcp_request_count example_proxy = 0"
  "last_poll_time example_proxy = 0" "poll_interval_ms example_proxy = 5000"
  "current_poll_source example_proxy = 0" "uart_rx example_proxy = []"
  by (simp_all add: example_proxy_def proxy_setup_def Let_def build_static_registers_def
      example_config_def add_rtu_source_def proxy_init_def MAX_RTU_SOURCES_def)

lemma example_source:
  "\<exists>s. sources example_proxy = [s] \<and> port_number s = 0 \<and> phases s = 1
       \<and> raw_regs s = replicate 50 0 \<and> \<not> data_valid s \<and> poll_success_count s = 0
       \<and> \<not> initial_model1_read s \<and> serial_number s = []"
  by (simp add: example_proxy_def proxy_setup_def Let_def build_static_registers_def
      example_config_def add_rtu_source_def proxy_init_def MAX_RTU_SOURCES_def copy_cstr_def
      MODEL_103_SIZE_def)

theorem read_holding_registers_response_witness:
  "tcp_tx (process_tcp_request example_proxy 7 1 [0, 1, 0, 0, 0, 6, 126, 3, 0x9C, 0x40, 0, 2])
     = [(1, [0, 1, 0, 0, 0, 7, 126, 3, 4, 0x53, 0x75, 0x6E, 0x53])]"
  using read_holding_registers_response
          [of example_proxy "[0, 1, 0, 0, 0, 6, 126, 3, 0x9C, 0x40, 0, 2]" 7 1]
  by (simp add: example_length example_unit_id example_plain example_signature be16_def
      mbap_frame_def put_be16_def upt_conv_Cons)

section \<open>Verification: writes and the trigger of the forwarding\<close>

lemma put_be16_be16: "put_be16 (be16 a b) = [a, b]"
proof -
  have m: "(0xFF :: u16) = mask 8" by (simp add: mask_eq_exp_minus_1)
  have "ucast (drop_bit 8 (push_bit 8 (ucast a :: u16) OR ucast b)) = a"
    by (rule bit_word_eqI) (auto simp add: bit_simps dest: bit_imp_le_length)
  moreover have "ucast ((push_bit 8 (ucast a :: u16) OR ucast b) AND mask 8) = b"
    by (rule bit_word_eqI) (auto simp add: bit_simps dest: bit_imp_le_length)
  ultimately show ?thesis
    by (simp add: put_be16_def be16_def m)
qed

lemma store_regs_splice:
  "off + length vs \<le> length m \<Longrightarrow> store_regs m off vs = take off m @ vs @ drop (off + length vs) m"
proof (induction vs arbitrary: m off)
  case Nil
  show ?case by simp
next
  case (Cons v vs)
  then have "store_regs (m[off := v]) (Suc off) vs =
               take (Suc off) (m[off := v]) @ vs @ drop (Suc off + length vs) (m[off := v])"
    by (intro Cons.IH) simp
  with Cons.prems show ?case
    by (simp add: take_Suc_conv_app_nth)
qed

lemma control_scan:
  "list_ex (\<lambda>r. r = a \<or> r = b) [off ..< off + n] =
     ((off \<le> a \<and> a < off + n) \<or> (off \<le> b \<and> b < off + n))"
  by (auto simp add: list_ex_iff)

lemma write_sunspec_registers_eq:
  "write_sunspec_registers st start count values =
     (if write_accepted start count
      then (let st1 = st\<lparr>register_map :=
                        store_regs (register_map st) (unat start - 40000) (take (unat count) values)\<rparr>
            in (True, if write_touches start count 40157 \<or> write_touches start count 40160
                      then forward_power_limit st1 (register_map st1 ! 157)
                             (register_map st1 ! 160 = 1)
                      else st1))
      else (False, st))"
proof (cases "start < SUNSPEC_BASE")
  case True
  then have "unat start < 40000"
    by (simp add: SUNSPEC_BASE_def word_less_nat_alt)
  with True show ?thesis
    by (simp add: write_sunspec_registers_def write_accepted_def)
next
  case False
  then have ge: "40000 \<le> unat start"
    by (simp add: SUNSPEC_BASE_def word_less_nat_alt)
  then have off: "unat (start - SUNSPEC_BASE) = unat start - 40000"
    by (simp add: SUNSPEC_BASE_def unat_sub word_le_nat_alt)
  have t: "write_touches start count 40157 =
             (unat start - 40000 \<le> 157 \<and> 157 < unat start - 40000 + unat count)"
          "write_touches start count 40160 =
             (unat start - 40000 \<le> 160 \<and> 160 < unat start - 40000 + unat count)"
    using ge by (auto simp add: write_touches_def)
  have a: "write_accepted start count =
             (\<not> (unat start - 40000 < 152 \<or> unat start - 40000 + unat count > 176))"
    using ge by (auto simp add: write_accepted_def)
  show ?thesis
    using False
    by (simp add: write_sunspec_registers_def Let_def off control_scan t a
        OFF_M123_def OFF_END_def)
qed

text \<open>
  Claim C5, amended. A successful write triggers \<^verbatim>\<open>forward_power_limit_\<close> exactly when the
  written range contains register 40157 (\<open>WMaxLimPct\<close>) or 40160 (\<open>WMaxLim_Ena\<close>), whether
  or not the stored value differs from the previous one; the call gets the new values of the
  two words. A write that touches neither writes nothing to the UART.
\<close>

theorem forward_triggered_by_touch:
  assumes "write_sunspec_registers st start count values = (True, st')"
  shows "st' = (let st1 = st\<lparr>register_map :=
                        store_regs (register_map st) (unat start - 40000) (take (unat count) values)\<rparr>
                in if write_touches start count 40157 \<or> write_touches start count 40160
                   then forward_power_limit st1 (register_map st1 ! 157) (register_map st1 ! 160 = 1)
                   else st1)
         \<and> uart_tx st' = uart_tx st @
              (if write_touches start count 40157 \<or> write_touches start count 40160
               then forward_loop (dtu_address st) (register_map st' ! 157)
                      (register_map st' ! 160 = 1) (sources st)
               else [])"
  using assms
  by (auto simp add: write_sunspec_registers_eq Let_def forward_power_limit_def
      split: if_splits)

lemma example_source_list:
  "sources example_proxy = sources example_config"
  "map port_number (sources example_config) = [0]"
  by (simp_all add: example_proxy_def proxy_setup_def Let_def build_static_registers_def
      example_config_def add_rtu_source_def proxy_init_def MAX_RTU_SOURCES_def)

lemma forward_loop_ports:
  "map port_number ss = map port_number ss' \<Longrightarrow>
     forward_loop dtu pct ena ss = forward_loop dtu pct ena ss'"
proof (induction ss arbitrary: ss')
  case Nil
  then show ?case by simp
next
  case (Cons s ss)
  then obtain t ts where "ss' = t # ts" by (cases ss') auto
  with Cons show ?case
    by (simp add: limit_frames_def)
qed

lemma forward_loop_example:
  "forward_loop dtu pct False (sources example_proxy) = [rtu_write_frame dtu 0x06 0xC007 100]"
proof -
  obtain s where s: "sources example_config = [s]" "port_number s = 0"
    using example_source_list(2) by (cases "sources example_config") auto
  show ?thesis
    by (simp add: example_source_list(1) s limit_frames_disabled)
qed

theorem forward_triggered_by_touch_witness:
  "write_sunspec_registers example_proxy 40157 1 [500] =
      (True, snd (write_sunspec_registers example_proxy 40157 1 [500]))
   \<and> uart_tx (snd (write_sunspec_registers example_proxy 40157 1 [500])) =
       [rtu_write_frame 126 0x06 0xC007 100]
   \<and> write_sunspec_registers example_proxy 40153 1 [500] =
      (True, snd (write_sunspec_registers example_proxy 40153 1 [500]))
   \<and> uart_tx (snd (write_sunspec_registers example_proxy 40153 1 [500])) = []"
proof -
  have a: "write_sunspec_registers example_proxy 40157 1 [500] =
      (True, snd (write_sunspec_registers example_proxy 40157 1 [500]))"
    by (simp add: write_sunspec_registers_eq write_accepted_def Let_def)
  have b: "write_sunspec_registers example_proxy 40153 1 [500] =
      (True, snd (write_sunspec_registers example_proxy 40153 1 [500]))"
    by (simp add: write_sunspec_registers_eq write_accepted_def Let_def)
  have l: "length (register_map example_proxy) = 178"
    using example_length by (simp add: TOTAL_REGS_def)
  have e: "register_map (snd (write_sunspec_registers example_proxy 40157 1 [500])) ! 160 = 0"
    by (simp add: write_sunspec_registers_eq write_accepted_def write_touches_def Let_def
        forward_power_limit_def example_controls)
  show ?thesis
    using forward_triggered_by_touch [OF a] forward_triggered_by_touch [OF b] a b e
    by (simp add: write_touches_def example_plain forward_loop_example
        forward_power_limit_def)
qed

text \<open>
  Counterexample to claim C5 as stated: writing 1000 to register 40157 of the image built at
  start-up, where \<open>WMaxLimPct\<close> is already 1000, changes neither control word and still
  forwards the limit to the source.
\<close>

theorem forward_without_change_counterexample:
  "fst (write_sunspec_registers example_proxy 40157 1 [1000])
   \<and> register_map (snd (write_sunspec_registers example_proxy 40157 1 [1000])) ! 157
       = register_map example_proxy ! 157
   \<and> register_map (snd (write_sunspec_registers example_proxy 40157 1 [1000])) ! 160
       = register_map example_proxy ! 160
   \<and> uart_tx example_proxy = []
   \<and> uart_tx (snd (write_sunspec_registers example_proxy 40157 1 [1000]))
       = [rtu_write_frame 126 0x06 0xC007 100]"
proof -
  have l: "length (register_map example_proxy) = 178"
    using example_length by (simp add: TOTAL_REGS_def)
  show ?thesis
    by (simp add: write_sunspec_registers_eq write_accepted_def write_touches_def Let_def
        forward_power_limit_def example_controls example_plain forward_loop_example l)
qed

lemma write_result_fields:
  "fst (write_sunspec_registers st start count values) = write_accepted start count"
  "tcp_tx (snd (write_sunspec_registers st start count values)) = tcp_tx st"
  "register_map (snd (write_sunspec_registers st start count values)) =
     (if write_accepted start count
      then store_regs (register_map st) (unat start - 40000) (take (unat count) values)
      else register_map st)"
  by (simp_all add: write_sunspec_registers_eq Let_def forward_power_limit_def)

lemma send_keeps_image:
  "register_map (send_tcp_response st fd txn unit fc data) = register_map st"
  "register_map (bump_tcp_error (send_tcp_error st fd txn unit fc err)) = register_map st"
  by (simp_all add: send_tcp_response_def send_tcp_error_def bump_tcp_error_def)

lemma handle_write_single_result:
  assumes "12 \<le> length buf"
  shows "tcp_tx (handle_write_single st fd txn unit fc buf) = tcp_tx st @ [(fd,
           if write_accepted (be16 (buf ! 8) (buf ! 9)) 1
           then mbap_frame txn unit fc [buf ! 8, buf ! 9, buf ! 10, buf ! 11]
           else mbap_frame txn unit (fc OR 0x80) [0x02])]"
    and "register_map (handle_write_single st fd txn unit fc buf) =
           (if write_accepted (be16 (buf ! 8) (buf ! 9)) 1
            then (register_map st)[unat (be16 (buf ! 8) (buf ! 9)) - 40000 := be16 (buf ! 10) (buf ! 11)]
            else register_map st)"
proof -
  let ?w = "write_sunspec_registers st (be16 (buf ! 8) (buf ! 9)) 1 [be16 (buf ! 10) (buf ! 11)]"
  have h: "handle_write_single st fd txn unit fc buf =
             (if fst ?w
              then send_tcp_response (snd ?w) fd txn unit fc
                     (put_be16 (be16 (buf ! 8) (buf ! 9)) @ put_be16 (be16 (buf ! 10) (buf ! 11)))
              else bump_tcp_error (send_tcp_error (snd ?w) fd txn unit fc 0x02))"
    using assms by (simp add: handle_write_single_def Let_def case_prod_beta)
  show "tcp_tx (handle_write_single st fd txn unit fc buf) = tcp_tx st @ [(fd,
           if write_accepted (be16 (buf ! 8) (buf ! 9)) 1
           then mbap_frame txn unit fc [buf ! 8, buf ! 9, buf ! 10, buf ! 11]
           else mbap_frame txn unit (fc OR 0x80) [0x02])]"
    by (simp add: h write_result_fields tcp_tx_response tcp_tx_error put_be16_be16)
  show "register_map (handle_write_single st fd txn unit fc buf) =
           (if write_accepted (be16 (buf ! 8) (buf ! 9)) 1
            then (register_map st)[unat (be16 (buf ! 8) (buf ! 9)) - 40000 := be16 (buf ! 10) (buf ! 11)]
            else register_map st)"
    by (simp add: h write_result_fields send_keeps_image)
qed

lemma handle_write_multiple_result:
  assumes "13 \<le> length buf"
  shows "tcp_tx (handle_write_multiple st fd txn unit fc buf) = tcp_tx st @ [(fd,
           if 100 < unat (be16 (buf ! 10) (buf ! 11))
              \<or> length buf < 13 + 2 * unat (be16 (buf ! 10) (buf ! 11))
           then mbap_frame txn unit (fc OR 0x80) [0x03]
           else if write_accepted (be16 (buf ! 8) (buf ! 9)) (be16 (buf ! 10) (buf ! 11))
           then mbap_frame txn unit fc [buf ! 8, buf ! 9, buf ! 10, buf ! 11]
           else mbap_frame txn unit (fc OR 0x80) [0x02])]"
    and "register_map (handle_write_multiple st fd txn unit fc buf) =
           (if 100 < unat (be16 (buf ! 10) (buf ! 11))
               \<or> length buf < 13 + 2 * unat (be16 (buf ! 10) (buf ! 11))
            then register_map st
            else if write_accepted (be16 (buf ! 8) (buf ! 9)) (be16 (buf ! 10) (buf ! 11))
            then store_regs (register_map st) (unat (be16 (buf ! 8) (buf ! 9)) - 40000)
                   (request_words buf (unat (be16 (buf ! 10) (buf ! 11))))
            else register_map st)"
proof -
  let ?cnt = "be16 (buf ! 10) (buf ! 11)"
  let ?vals = "map (\<lambda>i. be16 (buf ! (13 + i * 2)) (buf ! (13 + i * 2 + 1))) [0 ..< unat ?cnt]"
  let ?w = "write_sunspec_registers st (be16 (buf ! 8) (buf ! 9)) ?cnt ?vals"
  have c: "(?cnt > 100) = (100 < unat ?cnt)"
    by (simp add: word_less_nat_alt)
  have v: "?vals = request_words buf (unat ?cnt)"
    by (simp add: request_words_def mult.commute)
  have h: "handle_write_multiple st fd txn unit fc buf =
             (if length buf < 13 + unat ?cnt * 2 \<or> 100 < unat ?cnt
              then bump_tcp_error (send_tcp_error st fd txn unit fc 0x03)
              else if fst ?w
              then send_tcp_response (snd ?w) fd txn unit fc
                     (put_be16 (be16 (buf ! 8) (buf ! 9)) @ put_be16 ?cnt)
              else bump_tcp_error (send_tcp_error (snd ?w) fd txn unit fc 0x02))"
    using assms unfolding handle_write_multiple_def Let_def c
    by (simp add: case_prod_beta)
  show "tcp_tx (handle_write_multiple st fd txn unit fc buf) = tcp_tx st @ [(fd,
           if 100 < unat (be16 (buf ! 10) (buf ! 11))
              \<or> length buf < 13 + 2 * unat (be16 (buf ! 10) (buf ! 11))
           then mbap_frame txn unit (fc OR 0x80) [0x03]
           else if write_accepted (be16 (buf ! 8) (buf ! 9)) (be16 (buf ! 10) (buf ! 11))
           then mbap_frame txn unit fc [buf ! 8, buf ! 9, buf ! 10, buf ! 11]
           else mbap_frame txn unit (fc OR 0x80) [0x02])]"
    by (auto simp add: h write_result_fields tcp_tx_response tcp_tx_error put_be16_be16)
  show "register_map (handle_write_multiple st fd txn unit fc buf) =
           (if 100 < unat (be16 (buf ! 10) (buf ! 11))
               \<or> length buf < 13 + 2 * unat (be16 (buf ! 10) (buf ! 11))
            then register_map st
            else if write_accepted (be16 (buf ! 8) (buf ! 9)) (be16 (buf ! 10) (buf ! 11))
            then store_regs (register_map st) (unat (be16 (buf ! 8) (buf ! 9)) - 40000)
                   (request_words buf (unat (be16 (buf ! 10) (buf ! 11))))
            else register_map st)"
    unfolding h v
    by (auto simp add: write_result_fields send_keeps_image request_words_def)
qed

text \<open>
  Claim C3, amended. For a request of at least 8 bytes to the configured unit id (protocol 0):
  a Write Single Register (0x06) of fewer than 12 bytes and a Write Multiple Registers (0x10)
  of fewer than 13 bytes get no answer at all and leave the image as it was. A Write Single
  Register of at least 12 bytes whose register lies in 40152..40175 stores the word and is
  answered by the echo of register and value; any other register is answered by exception
  0x02 and the image stays as it was. A Write Multiple Registers of at least 13 bytes with a
  count above 100 or with fewer than \<open>13 + 2 * count\<close> bytes is answered by exception 0x03,
  whatever its target, and the image stays as it was; otherwise a range inside 40152..40175
  stores the words verbatim and is answered by the echo of register and count, and any other
  range is answered by exception 0x02 with the image unchanged.
\<close>

theorem write_request_handling:
  assumes "length (register_map st) = TOTAL_REGS"
      and "8 \<le> length buf"
      and "be16 (buf ! 2) (buf ! 3) = 0"
      and "buf ! 6 = unit_id (agg_config st)"
  shows "(buf ! 7 = 0x06 \<and> 12 \<le> length buf \<longrightarrow>
           (let reg = be16 (buf ! 8) (buf ! 9);
                val = be16 (buf ! 10) (buf ! 11);
                txn = be16 (buf ! 0) (buf ! 1);
                st' = process_tcp_request st now fd buf
            in if write_accepted reg 1
               then register_map st' = (register_map st)[unat reg - 40000 := val]
                    \<and> tcp_tx st' = tcp_tx st @
                          [(fd, mbap_frame txn (buf ! 6) 0x06 [buf ! 8, buf ! 9, buf ! 10, buf ! 11])]
               else register_map st' = register_map st
                    \<and> tcp_tx st' = tcp_tx st @ [(fd, mbap_frame txn (buf ! 6) 0x86 [0x02])]))
       \<and> (buf ! 7 = 0x10 \<and> 13 \<le> length buf \<longrightarrow>
           (let reg = be16 (buf ! 8) (buf ! 9);
                cnt = be16 (buf ! 10) (buf ! 11);
                txn = be16 (buf ! 0) (buf ! 1);
                st' = process_tcp_request st now fd buf
            in if 100 < unat cnt \<or> length buf < 13 + 2 * unat cnt
               then register_map st' = register_map st
                    \<and> tcp_tx st' = tcp_tx st @ [(fd, mbap_frame txn (buf ! 6) 0x90 [0x03])]
               else if write_accepted reg cnt
               then register_map st' =
                      take (unat reg - 40000) (register_map st) @ request_words buf (unat cnt)
                      @ drop (unat reg - 40000 + unat cnt) (register_map st)
                    \<and> tcp_tx st' = tcp_tx st @
                          [(fd, mbap_frame txn (buf ! 6) 0x10 [buf ! 8, buf ! 9, buf ! 10, buf ! 11])]
               else register_map st' = register_map st
                    \<and> tcp_tx st' = tcp_tx st @ [(fd, mbap_frame txn (buf ! 6) 0x90 [0x02])]))
       \<and> ((buf ! 7 = 0x06 \<and> length buf < 12) \<or> (buf ! 7 = 0x10 \<and> length buf < 13) \<longrightarrow>
           register_map (process_tcp_request st now fd buf) = register_map st
           \<and> tcp_tx (process_tcp_request st now fd buf) = tcp_tx st)"
proof -
  let ?st1 = "st\<lparr>last_tcp_activity_ms := now, tcp_request_count := tcp_request_count st + 1\<rparr>"
  have six: "buf ! 7 = 0x06 \<Longrightarrow> process_tcp_request st now fd buf =
               handle_write_single ?st1 fd (be16 (buf ! 0) (buf ! 1)) (buf ! 6) 0x06 buf"
    using assms by (simp add: process_tcp_request_def Let_def)
  have sixteen: "buf ! 7 = 0x10 \<Longrightarrow> process_tcp_request st now fd buf =
               handle_write_multiple ?st1 fd (be16 (buf ! 0) (buf ! 1)) (buf ! 6) 0x10 buf"
    using assms by (simp add: process_tcp_request_def Let_def)
  have splice: "write_accepted (be16 (buf ! 8) (buf ! 9)) (be16 (buf ! 10) (buf ! 11)) \<Longrightarrow>
      store_regs (register_map st) (unat (be16 (buf ! 8) (buf ! 9)) - 40000)
        (request_words buf (unat (be16 (buf ! 10) (buf ! 11)))) =
      take (unat (be16 (buf ! 8) (buf ! 9)) - 40000) (register_map st)
      @ request_words buf (unat (be16 (buf ! 10) (buf ! 11)))
      @ drop (unat (be16 (buf ! 8) (buf ! 9)) - 40000 + unat (be16 (buf ! 10) (buf ! 11)))
          (register_map st)"
    using assms(1)
    by (subst store_regs_splice) (auto simp add: write_accepted_def request_words_def TOTAL_REGS_def)
  have a: "buf ! 7 = 0x06 \<and> 12 \<le> length buf \<longrightarrow>
           (let reg = be16 (buf ! 8) (buf ! 9);
                val = be16 (buf ! 10) (buf ! 11);
                txn = be16 (buf ! 0) (buf ! 1);
                st' = process_tcp_request st now fd buf
            in if write_accepted reg 1
               then register_map st' = (register_map st)[unat reg - 40000 := val]
                    \<and> tcp_tx st' = tcp_tx st @
                          [(fd, mbap_frame txn (buf ! 6) 0x06 [buf ! 8, buf ! 9, buf ! 10, buf ! 11])]
               else register_map st' = register_map st
                    \<and> tcp_tx st' = tcp_tx st @ [(fd, mbap_frame txn (buf ! 6) 0x86 [0x02])])"
    by (simp add: six Let_def handle_write_single_result)
  have b: "buf ! 7 = 0x10 \<and> 13 \<le> length buf \<longrightarrow>
           (let reg = be16 (buf ! 8) (buf ! 9);
                cnt = be16 (buf ! 10) (buf ! 11);
                txn = be16 (buf ! 0) (buf ! 1);
                st' = process_tcp_request st now fd buf
            in if 100 < unat cnt \<or> length buf < 13 + 2 * unat cnt
               then register_map st' = register_map st
                    \<and> tcp_tx st' = tcp_tx st @ [(fd, mbap_frame txn (buf ! 6) 0x90 [0x03])]
               else if write_accepted reg cnt
               then register_map st' =
                      take (unat reg - 40000) (register_map st) @ request_words buf (unat cnt)
                      @ drop (unat reg - 40000 + unat cnt) (register_map st)
                    \<and> tcp_tx st' = tcp_tx st @
                          [(fd, mbap_frame txn (buf ! 6) 0x10 [buf ! 8, buf ! 9, buf ! 10, buf ! 11])]
               else register_map st' = register_map st
                    \<and> tcp_tx st' = tcp_tx st @ [(fd, mbap_frame txn (buf ! 6) 0x90 [0x02])])"
    using splice
    by (simp add: sixteen Let_def handle_write_multiple_result)
  have c: "(buf ! 7 = 0x06 \<and> length buf < 12) \<or> (buf ! 7 = 0x10 \<and> length buf < 13) \<longrightarrow>
           register_map (process_tcp_request st now fd buf) = register_map st
           \<and> tcp_tx (process_tcp_request st now fd buf) = tcp_tx st"
    by (auto simp add: six sixteen handle_write_single_def handle_write_multiple_def)
  from a b c show ?thesis by (intro conjI)
qed

theorem write_request_handling_witness:
  "register_map (process_tcp_request example_proxy 7 1 [0, 1, 0, 0, 0, 6, 126, 6, 0x9C, 0xDD, 1, 0xF4])
     = (register_map example_proxy)[157 := 500]
   \<and> tcp_tx (process_tcp_request example_proxy 7 1 [0, 1, 0, 0, 0, 6, 126, 6, 0x9C, 0xDD, 1, 0xF4])
     = [(1, [0, 1, 0, 0, 0, 6, 126, 6, 0x9C, 0xDD, 1, 0xF4])]
   \<and> register_map (process_tcp_request example_proxy 7 1
        [0, 2, 0, 0, 0, 9, 126, 0x10, 0x9C, 0xDD, 0, 1, 2, 1, 0xF4])
     = take 157 (register_map example_proxy) @ [500] @ drop 158 (register_map example_proxy)
   \<and> tcp_tx (process_tcp_request example_proxy 7 1
        [0, 2, 0, 0, 0, 9, 126, 0x10, 0x9C, 0xDD, 0, 1, 2, 1, 0xF4])
     = [(1, [0, 2, 0, 0, 0, 6, 126, 0x10, 0x9C, 0xDD, 0, 1])]
   \<and> register_map (process_tcp_request example_proxy 7 1 [0, 3, 0, 0, 0, 6, 126, 6, 0x9C, 0x40, 0, 1])
     = register_map example_proxy
   \<and> tcp_tx (process_tcp_request example_proxy 7 1 [0, 3, 0, 0, 0, 6, 126, 6, 0x9C, 0x40, 0, 1])
     = [(1, [0, 3, 0, 0, 0, 3, 126, 0x86, 2])]
   \<and> register_map (process_tcp_request example_proxy 7 1
        [0, 4, 0, 0, 0, 6, 126, 0x10, 0x9C, 0xDD, 0, 1])
     = register_map example_proxy
   \<and> tcp_tx (process_tcp_request example_proxy 7 1
        [0, 4, 0, 0, 0, 6, 126, 0x10, 0x9C, 0xDD, 0, 1])
     = []
   \<and> register_map (process_tcp_request example_proxy 7 1 [0, 5, 0, 0, 0, 4, 126, 6, 0x9C, 0xDD])
     = register_map example_proxy
   \<and> tcp_tx (process_tcp_request example_proxy 7 1 [0, 5, 0, 0, 0, 4, 126, 6, 0x9C, 0xDD])
     = []"
  using write_request_handling
          [of example_proxy "[0, 1, 0, 0, 0, 6, 126, 6, 0x9C, 0xDD, 1, 0xF4]" 7 1]
        write_request_handling
          [of example_proxy "[0, 2, 0, 0, 0, 9, 126, 0x10, 0x9C, 0xDD, 0, 1, 2, 1, 0xF4]" 7 1]
        write_request_handling
          [of example_proxy "[0, 3, 0, 0, 0, 6, 126, 6, 0x9C, 0x40, 0, 1]" 7 1]
        write_request_handling
          [of example_proxy "[0, 4, 0, 0, 0, 6, 126, 0x10, 0x9C, 0xDD, 0, 1]" 7 1]
        write_request_handling
          [of example_proxy "[0, 5, 0, 0, 0, 4, 126, 6, 0x9C, 0xDD]" 7 1]
  by (simp add: example_length example_unit_id example_plain be16_def write_accepted_def
      mbap_frame_def put_be16_def request_words_def Let_def)

text \<open>
  Counterexample to claim C3 as stated: a Write Multiple Registers request for 101 registers
  from 40152, complete with its 202 data bytes, targets a range that is not inside 40152..40175
  and is answered by exception 0x03, not 0x02.
\<close>

theorem write_count_exception_counterexample:
  "tcp_tx (process_tcp_request example_proxy 7 1
            ([0, 1, 0, 0, 0, 209, 126, 0x10, 0x9C, 0xD8, 0, 101, 202] @ replicate 202 0))
     = [(1, [0, 1, 0, 0, 0, 3, 126, 0x90, 0x03])]"
  by (simp add: process_tcp_request_def handle_write_multiple_def Let_def example_unit_id
      example_plain be16_def send_tcp_error_def send_tcp_response_def bump_tcp_error_def
      put_be16_def nth_append)

section \<open>Verification: the aggregator\<close>

lemma agg_branch_acc:
  "total_power (fst (agg_three_phase a s pw asf vsf)) = total_power a"
  "total_va (fst (agg_three_phase a s pw asf vsf)) = total_va a"
  "valid_count (fst (agg_three_phase a s pw asf vsf)) = valid_count a"
  "total_power (fst (agg_single_phase a s pw cur asf vsf)) = total_power a"
  "total_va (fst (agg_single_phase a s pw cur asf vsf)) = total_va a"
  "valid_count (fst (agg_single_phase a s pw cur asf vsf)) = valid_count a"
  by (simp_all add: agg_three_phase_def agg_single_phase_def Let_def)

lemma agg_branch_keeps:
  "raw_regs (snd (agg_three_phase a s pw asf vsf)) = raw_regs s"
  "raw_regs (snd (agg_single_phase a s pw cur asf vsf)) = raw_regs s"
  "data_valid (snd (agg_three_phase a s pw asf vsf)) = data_valid s"
  "data_valid (snd (agg_single_phase a s pw cur asf vsf)) = data_valid s"
  "power_w (snd (agg_three_phase a s pw asf vsf)) = power_w s"
  "power_w (snd (agg_single_phase a s pw cur asf vsf)) = power_w s"
  "pv_power_w (snd (agg_three_phase a s pw asf vsf)) = pv_power_w s"
  "pv_power_w (snd (agg_single_phase a s pw cur asf vsf)) = pv_power_w s"
  "last_poll_ms (snd (agg_three_phase a s pw asf vsf)) = last_poll_ms s"
  "last_poll_ms (snd (agg_single_phase a s pw cur asf vsf)) = last_poll_ms s"
  "poll_success_count (snd (agg_three_phase a s pw asf vsf)) = poll_success_count s"
  "poll_success_count (snd (agg_single_phase a s pw cur asf vsf)) = poll_success_count s"
  by (simp_all add: agg_three_phase_def agg_single_phase_def Let_def)

lemma agg_source_acc:
  "valid_count (fst (agg_source ub a s)) = (if data_valid s then valid_count a + 1 else valid_count a)"
  "total_power (fst (agg_source ub a s)) =
     (if data_valid s
      then acc_add (total_power a) (apply_sf (raw_regs s ! INV_W) (raw_regs s ! INV_W_SF))
      else total_power a)"
  "total_va (fst (agg_source ub a s)) =
     (if data_valid s
      then acc_add (total_va a) (apply_sf (raw_regs s ! INV_VA) (raw_regs s ! INV_VA_SF))
      else total_va a)"
  by (simp_all add: agg_source_def Let_def case_prod_beta agg_branch_acc acc_add_def)

lemma agg_source_keeps:
  "raw_regs (snd (agg_source ub a s)) = raw_regs s"
  "data_valid (snd (agg_source ub a s)) = data_valid s"
  "pv_power_w (snd (agg_source ub a s)) = pv_power_w s"
  "last_poll_ms (snd (agg_source ub a s)) = last_poll_ms s"
  "poll_success_count (snd (agg_source ub a s)) = poll_success_count s"
  by (simp_all add: agg_source_def Let_def case_prod_beta agg_branch_keeps)

lemma agg_source_power:
  "power_w (snd (agg_source ub a s)) =
     (if data_valid s then or0 (apply_sf (raw_regs s ! INV_W) (raw_regs s ! INV_W_SF))
      else power_w s)"
  by (simp add: agg_source_def Let_def case_prod_beta agg_branch_keeps)

lemma agg_loop_raw_regs: "map raw_regs (snd (agg_loop ub a ss)) = map raw_regs ss"
  by (induction ss arbitrary: a) (simp_all add: case_prod_beta Let_def agg_source_keeps)

lemma aggregate_sources:
  "sources (aggregate_and_update_registers ub st) = snd (agg_loop ub agg_init (sources st))"
  by (simp add: aggregate_and_update_registers_def Let_def case_prod_beta)

lemma aggregate_raw_regs:
  "map raw_regs (sources (aggregate_and_update_registers ub st)) = map raw_regs (sources st)"
  by (simp add: aggregate_sources agg_loop_raw_regs)

lemma aggregate_image:
  "register_map (aggregate_and_update_registers ub st) =
     (let a = fst (agg_loop ub agg_init (sources st))
      in if valid_count a = 0 then (register_map st)[OFF_INV + 2 + INV_St := 2]
         else encode_registers ub (st\<lparr>sources := snd (agg_loop ub agg_init (sources st))\<rparr>) a)"
  by (simp add: aggregate_and_update_registers_def Let_def case_prod_beta)

lemma encode_w:
  assumes "length (register_map st) = TOTAL_REGS"
  shows "encode_registers ub st a ! 84 = f2s16 ub (total_power a)"
  using assms
  by (simp add: encode_registers_def Let_def layout_defs)

text \<open>
  The register block \<open>raw_regs\<close> of a source is the zero block that \<^verbatim>\<open>add_rtu_source\<close>
  gives it, and neither \<^verbatim>\<open>setup()\<close> nor a TCP request changes the sources (the poller is
  treated below). A zero block decodes to the value 0 with the scale factor 0, so over such
  blocks the apparent power sums to 0, the test \<^verbatim>\<open>total_va > 0\<close> fails, and the
  aggregator leaves the power-factor register (image offset 92) as it finds it.
\<close>

lemma add_rtu_source_raw_regs:
  assumes "\<forall>r\<in>set (map raw_regs (sources st)). r = replicate MODEL_103_SIZE 0"
  shows "\<forall>r\<in>set (map raw_regs (sources (add_rtu_source st port phs rated cp mppt nm mdl serial))).
           r = replicate MODEL_103_SIZE 0"
  using assms by (auto simp add: add_rtu_source_def)

lemma proxy_setup_sources: "sources (proxy_setup ub st) = sources st"
  by (simp add: proxy_setup_def Let_def build_static_registers_def)

lemma write_sunspec_registers_sources:
  "sources (snd (write_sunspec_registers st start count values)) = sources st"
  by (simp add: write_sunspec_registers_def Let_def forward_power_limit_def)

lemma handle_sources:
  "sources (handle_read_holding st fd txn unit fc buf) = sources st"
  "sources (handle_write_single st fd txn unit fc buf) = sources st"
  "sources (handle_write_multiple st fd txn unit fc buf) = sources st"
  by (simp_all add: handle_read_holding_def handle_write_single_def handle_write_multiple_def
      Let_def case_prod_beta send_tcp_response_def send_tcp_error_def bump_tcp_error_def
      write_sunspec_registers_sources split: option.splits bool.splits)

lemma process_tcp_request_sources:
  "sources (process_tcp_request st now fd buf) = sources st"
  by (simp add: process_tcp_request_def Let_def handle_sources send_tcp_response_def
      send_tcp_error_def bump_tcp_error_def)

lemma apply_sf_zero: "apply_sf 0 0 = Fin 0"
  by (simp add: apply_sf_def f_of_int_exact powf10_0 round32_0)

lemma agg_source_zero_block:
  assumes "raw_regs s = replicate MODEL_103_SIZE 0" and "total_va a = Fin 0"
  shows "total_va (fst (agg_source ub a s)) = Fin 0"
  using assms
  by (simp add: agg_source_acc layout_defs MODEL_103_SIZE_def apply_sf_zero acc_add_def round32_0)

lemma agg_loop_zero_blocks:
  assumes "\<forall>r\<in>set (map raw_regs ss). r = replicate MODEL_103_SIZE 0" and "total_va a = Fin 0"
  shows "total_va (fst (agg_loop ub a ss)) = Fin 0"
  using assms
proof (induction ss arbitrary: a)
  case Nil
  then show ?case by simp
next
  case (Cons s ss)
  have "total_va (fst (agg_source ub a s)) = Fin 0"
    using Cons.prems by (intro agg_source_zero_block) simp_all
  moreover have "\<forall>r\<in>set (map raw_regs ss). r = replicate MODEL_103_SIZE 0"
    using Cons.prems by simp
  ultimately have "total_va (fst (agg_loop ub (fst (agg_source ub a s)) ss)) = Fin 0"
    by (intro Cons.IH)
  then show ?case by (simp add: case_prod_beta Let_def)
qed

lemma encode_keeps_pf:
  assumes "total_va a = Fin 0"
  shows "encode_registers ub st a ! 92 = register_map st ! 92"
  using assms
  by (simp add: encode_registers_def Let_def layout_defs)

lemma aggregate_zero_blocks_keeps_pf:
  assumes "\<forall>r\<in>set (map raw_regs (sources st)). r = replicate MODEL_103_SIZE 0"
  shows "total_va (fst (agg_loop ub agg_init (sources st))) = Fin 0"
    and "register_map (aggregate_and_update_registers ub st) ! (OFF_INV + 2 + INV_PF)
           = register_map st ! (OFF_INV + 2 + INV_PF)"
proof -
  show z: "total_va (fst (agg_loop ub agg_init (sources st))) = Fin 0"
    using assms by (intro agg_loop_zero_blocks) (simp_all add: agg_init_def)
  have "register_map (aggregate_and_update_registers ub st) ! 92 = register_map st ! 92"
    by (simp add: aggregate_image Let_def encode_keeps_pf [OF z] layout_defs)
  then show "register_map (aggregate_and_update_registers ub st) ! (OFF_INV + 2 + INV_PF)
           = register_map st ! (OFF_INV + 2 + INV_PF)"
    by (simp add: layout_defs)
qed

section \<open>Verification: the poller and the shared bus\<close>

lemma map_update_same:
  "f y = f (xs ! i) \<Longrightarrow> map f (xs[i := y]) = map f xs"
  by (cases "i < length xs") (simp_all add: map_update list_update_same_conv list_update_beyond)

lemma parse_port_block_raw_regs: "raw_regs (parse_port_block s now rd) = raw_regs s"
  by (simp add: parse_port_block_def Let_def)

lemma read_rtu_response_sources:
  "sources (snd (snd (read_rtu_response st n))) = sources st"
  "current_poll_source (snd (snd (read_rtu_response st n))) = current_poll_source st"
  by (simp_all add: read_rtu_response_def Let_def)

lemma bump_poll_fail_raw_regs:
  "map raw_regs (sources (bump_poll_fail st)) = map raw_regs (sources st)"
  by (simp add: bump_poll_fail_def Let_def map_update_same)

lemma handle_rtu_frame_raw_regs:
  "map raw_regs (sources (handle_rtu_frame junk ub now st n resp)) = map raw_regs (sources st)"
  by (simp add: handle_rtu_frame_def Let_def aggregate_raw_regs bump_poll_fail_raw_regs
      map_update_same parse_port_block_raw_regs)

lemma poll_keeps_raw_regs:
  "map raw_regs (sources (poll_rtu_sources junk ub now st)) = map raw_regs (sources st)"
  by (simp add: poll_rtu_sources_def Let_def case_prod_beta handle_rtu_frame_raw_regs
      read_rtu_response_sources map_update_same send_rtu_request_def)

lemma example_polling_eq:
  "example_polling =
     example_proxy\<lparr>uart_rx := [],
       uart_tx := [[126, 0x03, 0x10, 0x00, 0x00, 0x28,
                    ucast (calc_crc16 [126, 0x03, 0x10, 0x00, 0x00, 0x28] AND 0xFF),
                    ucast (drop_bit 8 (calc_crc16 [126, 0x03, 0x10, 0x00, 0x00, 0x28]) AND 0xFF)]],
       rtu_busy := True, rtu_request_time := 5000, current_poll_source := 0,
       last_poll_time := 5000\<rparr>"
proof -
  obtain s where s: "sources example_proxy = [s]" "port_number s = 0"
    using example_source by blast
  show ?thesis
    by (simp add: example_polling_def poll_rtu_sources_def Let_def s example_plain
        send_rtu_request_def hm_defs put_be16_def)
qed

lemma example_polling_fields:
  "rtu_busy example_polling" "sources example_polling = sources example_proxy"
  "register_map example_polling = register_map example_proxy"
  "agg_config example_polling = agg_config example_proxy"
  "dtu_address example_polling = 126" "current_poll_source example_polling = 0"
  "tcp_tx example_polling = []" "length (uart_tx example_polling) = 1"
  by (simp_all add: example_polling_eq example_plain)

lemma poll_request_advances:
  assumes "sources st \<noteq> []" and "\<not> rtu_busy st"
      and "\<not> now - last_poll_time st < poll_interval_ms st div of_nat (length (sources st))"
  shows "rtu_busy (poll_rtu_sources junk ub now st)
         \<and> current_poll_source (poll_rtu_sources junk ub now st) =
             (current_poll_source st + 1) mod length (sources st)"
  using assms
  by (simp add: poll_rtu_sources_def Let_def send_rtu_request_def)

text \<open>
  Claim C6 fails on the code. At the failing input a poll request has been sent at time 5000
  and its answer is awaited (\<open>rtu_busy\<close>); a Write Single Register of 500 to 40157 arriving at
  time 5100 makes \<^verbatim>\<open>forward_power_limit_\<close> write its frame to the UART at once, while
  \<open>rtu_busy\<close> is and remains true.
\<close>

theorem forward_interleaves_with_poll:
  "rtu_busy example_polling
   \<and> length (uart_tx example_polling) = 1
   \<and> uart_tx (process_tcp_request example_polling 5100 1
                [0, 1, 0, 0, 0, 6, 126, 6, 0x9C, 0xDD, 1, 0xF4])
       = uart_tx example_polling @ [rtu_write_frame 126 0x06 0xC007 100]
   \<and> rtu_busy (process_tcp_request example_polling 5100 1
                [0, 1, 0, 0, 0, 6, 126, 6, 0x9C, 0xDD, 1, 0xF4])"
proof -
  have l: "length (register_map example_proxy) = 178"
    using example_length by (simp add: TOTAL_REGS_def)
  have f: "forward_loop 126 pct False (sources example_proxy) = [rtu_write_frame 126 0x06 0xC007 100]" for pct
    by (rule forward_loop_example)
  show ?thesis
    by (simp add: example_polling_fields process_tcp_request_def handle_write_single_def Let_def
        example_unit_id be16_def write_sunspec_registers_eq write_accepted_def write_touches_def
        forward_power_limit_def send_tcp_response_def example_controls l f)
qed

section \<open>Verification: a successful poll\<close>

lemma crc_join:
  "(ucast (ucast (c AND 0xFF) :: u8) OR push_bit 8 (ucast (ucast (drop_bit 8 c) :: u8)) :: u16) = c"
proof -
  have m: "(0xFF :: u16) = mask 8" by (simp add: mask_eq_exp_minus_1)
  show ?thesis
    unfolding m
    by (rule bit_word_eqI) (auto simp add: bit_simps not_less dest: bit_imp_le_length)
qed

lemma be16_split: "be16 (ucast (drop_bit 8 w)) (ucast (w AND 0xFF)) = w"
proof -
  have m: "(0xFF :: u16) = mask 8" by (simp add: mask_eq_exp_minus_1)
  show ?thesis
    unfolding be16_def m
    by (rule bit_word_eqI) (auto simp add: bit_simps not_less dest: bit_imp_le_length)
qed

lemma length_concat_put: "length (concat (map put_be16 regs)) = 2 * length regs"
  by (induction regs) (simp_all add: put_be16_def)

lemma words_nth:
  "k < length regs \<Longrightarrow>
     concat (map put_be16 regs) ! (2 * k) = ucast (drop_bit 8 (regs ! k))
     \<and> concat (map put_be16 regs) ! (2 * k + 1) = ucast (regs ! k AND 0xFF)"
proof (induction regs arbitrary: k)
  case Nil
  then show ?case by simp
next
  case (Cons r regs)
  show ?case
  proof (cases k)
    case 0
    then show ?thesis by (simp add: put_be16_def)
  next
    case (Suc j)
    with Cons.prems have "j < length regs" by simp
    from Cons.IH [OF this] Suc show ?thesis
      by (simp add: put_be16_def)
  qed
qed

lemma block_roundtrip:
  assumes "length h = 3"
  shows "map (\<lambda>k. be16 (resp_at junk (h @ concat (map put_be16 regs) @ t) (3 + k * 2))
                        (resp_at junk (h @ concat (map put_be16 regs) @ t) (3 + k * 2 + 1)))
             [0 ..< length regs] = regs"
proof (rule nth_equalityI)
  show "length (map (\<lambda>k. be16 (resp_at junk (h @ concat (map put_be16 regs) @ t) (3 + k * 2))
                        (resp_at junk (h @ concat (map put_be16 regs) @ t) (3 + k * 2 + 1)))
             [0 ..< length regs]) = length regs"
    by simp
next
  fix i
  assume "i < length (map (\<lambda>k. be16 (resp_at junk (h @ concat (map put_be16 regs) @ t) (3 + k * 2))
                        (resp_at junk (h @ concat (map put_be16 regs) @ t) (3 + k * 2 + 1)))
             [0 ..< length regs])"
  then have i: "i < length regs" by simp
  have a: "(h @ concat (map put_be16 regs) @ t) ! (3 + i * 2) = concat (map put_be16 regs) ! (2 * i)"
    using assms i by (simp add: nth_append length_concat_put mult.commute)
  have b: "(h @ concat (map put_be16 regs) @ t) ! (3 + i * 2 + 1) = concat (map put_be16 regs) ! (2 * i + 1)"
    using assms i by (simp add: nth_append length_concat_put mult.commute)
  have b2: "(h @ concat (map put_be16 regs) @ t) ! (4 + i * 2) = concat (map put_be16 regs) ! Suc (2 * i)"
    using assms i by (simp add: nth_append length_concat_put mult.commute)
  have l: "3 + i * 2 + 1 < length (h @ concat (map put_be16 regs) @ t)"
    using assms i by (simp add: length_concat_put)
  then have l': "3 + i * 2 < length (h @ concat (map put_be16 regs) @ t)" by simp
  show "map (\<lambda>k. be16 (resp_at junk (h @ concat (map put_be16 regs) @ t) (3 + k * 2))
                        (resp_at junk (h @ concat (map put_be16 regs) @ t) (3 + k * 2 + 1)))
             [0 ..< length regs] ! i = regs ! i"
    using i l l' words_nth [OF i]
    by (simp add: resp_at_def a b b2 be16_split del: length_append)
qed

lemma read_rtu_response_good:
  assumes "uart_rx st = body @ [ucast (calc_crc16 body AND 0xFF), ucast (drop_bit 8 (calc_crc16 body))]"
      and "3 \<le> length body" and "length body + 2 \<le> 256"
  shows "read_rtu_response st 256 = (int (length body + 2), uart_rx st, st\<lparr>uart_rx := []\<rparr>)"
  using assms
  by (simp add: read_rtu_response_def Let_def nth_append crc_join)

lemma example_block_length: "length example_block = 40"
  by (simp add: example_block_def)

lemma example_response_read:
  "read_rtu_response (example_polling\<lparr>uart_rx := example_response\<rparr>) 256 =
     (85, example_response, example_polling)"
proof -
  let ?body = "[126, 0x03, 80] @ concat (map put_be16 example_block)"
  have r: "example_response =
             ?body @ [ucast (calc_crc16 ?body AND 0xFF), ucast (drop_bit 8 (calc_crc16 ?body))]"
    by (simp add: example_response_def Let_def)
  have len: "length ?body = 83"
    by (simp add: length_concat_put example_block_length)
  have "read_rtu_response (example_polling\<lparr>uart_rx := example_response\<rparr>) 256 =
          (int (length ?body + 2), uart_rx (example_polling\<lparr>uart_rx := example_response\<rparr>),
           (example_polling\<lparr>uart_rx := example_response\<rparr>)\<lparr>uart_rx := []\<rparr>)"
    by (rule read_rtu_response_good) (simp_all only: r len, simp_all)
  then show ?thesis
    by (simp only: len) (simp add: example_polling_eq)
qed

lemma example_reg_data:
  "map (\<lambda>k. be16 (resp_at junk example_response (3 + k * 2))
                  (resp_at junk example_response (3 + k * 2 + 1))) [0 ..< 40] = example_block"
proof -
  have r: "example_response = [126, 0x03, 80] @ concat (map put_be16 example_block)
             @ [ucast (calc_crc16 ([126, 0x03, 80] @ concat (map put_be16 example_block)) AND 0xFF),
                ucast (drop_bit 8 (calc_crc16 ([126, 0x03, 80] @ concat (map put_be16 example_block))))]"
    by (simp add: example_response_def Let_def)
  show ?thesis
    unfolding example_block_length [symmetric]
    by (subst r, subst r, rule block_roundtrip) simp
qed

lemma example_response_head:
  "resp_at junk example_response 1 = 0x03" "resp_at junk example_response 2 = 80"
  by (simp_all add: example_response_def Let_def resp_at_def)

lemma example_polled_eq:
  "example_polled =
     (aggregate_and_update_registers (\<lambda>x. 0)
        (example_polling\<lparr>sources :=
           (sources example_proxy)[0 := parse_port_block (sources example_proxy ! 0) 5200 example_block]\<rparr>))
     \<lparr>rtu_busy := False\<rparr>"
proof -
  obtain s where s: "sources example_proxy = [s]"
    using example_source by blast
  have ne: "sources (example_polling\<lparr>uart_rx := example_response\<rparr>) \<noteq> []"
    by (simp add: example_polling_fields s)
  have busy: "rtu_busy (example_polling\<lparr>uart_rx := example_response\<rparr>)"
    by (simp add: example_polling_fields)
  have u80: "unat (80 :: u8) div 2 = 40" by simp
  have m: "min 40 64 = (40 :: nat)" by simp
  have p: "example_polled = handle_rtu_frame (\<lambda>i. 0) (\<lambda>x. 0) 5200 example_polling 85 example_response"
    unfolding example_polled_def poll_rtu_sources_def
    using ne busy by (simp add: example_response_read)
  show ?thesis
    unfolding p handle_rtu_frame_def Let_def example_response_head u80 m example_reg_data
      example_polling_fields
    by simp
qed

lemma parse_port_block_fields:
  "data_valid (parse_port_block s now rd)"
  "last_poll_ms (parse_port_block s now rd) = now"
  "poll_success_count (parse_port_block s now rd) = poll_success_count s + 1"
  "pv_power_w (parse_port_block s now rd) = f_of_int (uint (rd ! HM_PV_POWER))"
  by (simp_all add: parse_port_block_def Let_def)

text \<open>
  Claim C1 fails on the code. At the failing input the answer to the poll request carries 40
  registers with a PV power of 650 W and a good CRC. The poll is counted as a success:
  \<open>data_valid\<close>, \<open>last_poll_ms\<close> and \<open>poll_success_count\<close> are set and the PV fields are
  decoded. But \<open>raw_regs\<close> is still the zero block it was given when the source was added,
  and the aggregator, which reads \<open>raw_regs\<close>, sets the source's \<open>power_w\<close> back to 0 and
  writes 0 to \<open>INV_W\<close>.
\<close>

theorem poll_success_leaves_raw_regs:
  "example_block ! HM_PV_POWER = 650
   \<and> data_valid (sources example_polled ! 0)
   \<and> poll_success_count (sources example_polled ! 0) = 1
   \<and> last_poll_ms (sources example_polled ! 0) = 5200
   \<and> pv_power_w (sources example_polled ! 0) = Fin 650
   \<and> raw_regs (sources example_polled ! 0) = replicate 50 0
   \<and> power_w (sources example_polled ! 0) = Fin 0
   \<and> register_map example_polled ! (OFF_INV + 2 + INV_W) = 0
   \<and> \<not> rtu_busy example_polled"
proof -
  obtain s where s: "sources example_proxy = [s]" "raw_regs s = replicate 50 0"
      "poll_success_count s = 0"
    using example_source by blast
  let ?s' = "parse_port_block s 5200 example_block"
  let ?st = "example_polling\<lparr>sources := [?s']\<rparr>"
  have e: "example_polled = (aggregate_and_update_registers (\<lambda>x. 0) ?st)\<lparr>rtu_busy := False\<rparr>"
    by (simp add: example_polled_eq s)
  have src: "sources example_polled = [snd (agg_source (\<lambda>x. 0) agg_init ?s')]"
    by (simp add: e aggregate_sources case_prod_beta Let_def)
  have raw: "raw_regs ?s' = replicate 50 0"
    by (simp add: parse_port_block_raw_regs s)
  have z: "apply_sf (replicate 50 0 ! INV_W) (replicate 50 0 ! INV_W_SF) = Fin 0"
    by (simp add: layout_defs apply_sf_zero)
  have len: "length (register_map (?st\<lparr>sources := snd (agg_loop (\<lambda>x. 0) agg_init (sources ?st))\<rparr>)) = TOTAL_REGS"
    by (simp add: example_polling_fields example_length)
  have vc: "valid_count (fst (agg_loop (\<lambda>x. 0) agg_init (sources ?st))) = 1"
    by (simp add: case_prod_beta Let_def agg_source_acc parse_port_block_fields agg_init_def)
  have tp: "total_power (fst (agg_loop (\<lambda>x. 0) agg_init (sources ?st))) = Fin 0"
    by (simp add: case_prod_beta Let_def agg_source_acc parse_port_block_fields agg_init_def raw z
        acc_add_def round32_0)
  have w: "register_map example_polled ! 84 = 0"
    unfolding e using vc tp encode_w [OF len]
    by (simp add: aggregate_image Let_def f2s16_def f2int_def trunc_def)
  have b: "example_block ! HM_PV_POWER = 650"
    by (simp add: example_block_def HM_PV_POWER_def)
  have "pv_power_w (sources example_polled ! 0) = Fin 650"
    using b by (simp add: src agg_source_keeps parse_port_block_fields f_of_int_exact)
  moreover have "power_w (sources example_polled ! 0) = Fin 0"
    by (simp add: src agg_source_power parse_port_block_fields raw z or0_def)
  moreover have "raw_regs (sources example_polled ! 0) = replicate 50 0"
    by (simp add: src agg_source_keeps raw)
  moreover have "data_valid (sources example_polled ! 0)"
      "poll_success_count (sources example_polled ! 0) = 1"
      "last_poll_ms (sources example_polled ! 0) = 5200"
    by (simp_all add: src agg_source_keeps parse_port_block_fields s)
  moreover have "\<not> rtu_busy example_polled"
    by (simp add: e)
  ultimately show ?thesis
    using b w by (simp add: layout_defs)
qed

end
